theory Spec2Isabelle
  imports Complex_Main
begin

section \<open>End-of-life dates of Debian and Ubuntu releases (apt\_mirror\_updater.eol)\<close>

text \<open>
  A shallow embedding of \<^verbatim>\<open>gather_eol_dates\<close> from
  \<^verbatim>\<open>src/apt_mirror_updater/eol.py\<close>.

  Strings (path names and decoded text) and byte strings (file contents) are both
  \<^typ>\<open>string\<close>, a list of 8-bit characters: a Python string is the list of the bytes
  of its UTF-8 encoding. A character of ASCII is one byte below 128 and every byte of
  another character is 128 or more, so searching for \<^verbatim>\<open>/\<close> and \<^verbatim>\<open>.\<close>,
  slicing at the positions found, concatenation and comparison are the same on the
  encoding as on the string. Path names are those of a POSIX host
  (\<^verbatim>\<open>os.path\<close> is \<^verbatim>\<open>posixpath\<close>). The nested dictionary
  \<^verbatim>\<open>known_dates\<close> is a map from distributor identifiers to maps from release
  code names to integers. Every exception the function can meet is a value of type
  \<open>error\<close>; a computation that may raise returns \<open>error + 'a\<close>, with \<open>Inl\<close> for
  the exception.
\<close>

subsection \<open>Exceptions\<close>

datatype error =
    UnicodeDecodeError nat     \<comment> \<open>\<^verbatim>\<open>bytes.decode('ascii')\<close>: position of the first byte outside ASCII\<close>
  | KeyError string            \<comment> \<open>subscript of a dictionary with a key it does not hold\<close>
  | InvalidDate string         \<comment> \<open>raised by \<^verbatim>\<open>humanfriendly.parse_date\<close>\<close>
  | CsvError string            \<comment> \<open>raised while iterating \<^verbatim>\<open>csv.DictReader\<close>\<close>
  | OverflowError              \<comment> \<open>raised by \<^verbatim>\<open>time.mktime\<close>\<close>
  | ContextError string        \<comment> \<open>whatever the execution context raises\<close>

subsection \<open>The collaborators\<close>

text \<open>
  The execution context (\<^verbatim>\<open>executor.contexts\<close>) is the first argument of the
  function. Its three methods are fields of a record; each may raise.
\<close>

record exec_context =
  is_directory :: "string \<Rightarrow> error + bool"
  list_entries :: "string \<Rightarrow> error + string list"
  read_file :: "string \<Rightarrow> error + string"

text \<open>
  A row yielded by \<^verbatim>\<open>csv.DictReader\<close> is a dictionary from column names to
  fields. A field is a string, or \<^verbatim>\<open>None\<close> when the row is shorter than the
  header (the reader's \<^verbatim>\<open>restval\<close>). The fields of a row longer than the header
  are kept by the reader under the key \<^verbatim>\<open>None\<close>, which no lookup of the function
  uses; they are left out.
\<close>

type_synonym csv_row = "string \<rightharpoonup> string option"

text \<open>
  The imported library functions whose code is not part of the module are parameters:
  \<^item> \<open>DictReader text\<close> is the iteration of
    \<^verbatim>\<open>csv.DictReader(StringIO(text))\<close>: the rows it yields in order, and the
    exception that ends the iteration, if one does;
  \<^item> \<open>parse_date\<close> is \<^verbatim>\<open>humanfriendly.parse_date\<close>, from a string to a tuple of
    integers (year, month, day, hour, minute, second);
  \<^item> \<open>mktime\<close> is \<^verbatim>\<open>time.mktime\<close>, from a tuple of integers to the seconds since the
    epoch in the local time zone, a floating point number that is read here as the
    real number it denotes;
  \<^item> \<open>unicode_lower\<close> is \<^verbatim>\<open>str.lower\<close> on the strings that hold a character outside
    ASCII, where it follows the case table of Unicode (in Python 2, where names are
    byte strings, it leaves such characters as they are).
  A tuple of integers is a list of integers.
\<close>

record library =
  DictReader :: "string \<Rightarrow> csv_row list \<times> error option"
  parse_date :: "string \<Rightarrow> error + int list"
  mktime :: "int list \<Rightarrow> error + real"
  unicode_lower :: "string \<Rightarrow> string"

subsection \<open>Standard library functions with a fixed meaning\<close>

text \<open>
  \<^verbatim>\<open>str.lower\<close>. On a string of ASCII characters the letters A to Z are mapped to
  a to z and every other character is left as it is. On a string that holds a
  character outside ASCII the result is that of the case table of Unicode, which is
  not part of the module: it is the collaborator \<open>unicode_lower\<close>.
\<close>

definition is_ascii :: "char \<Rightarrow> bool" where
  "is_ascii c = ((of_char c :: nat) < 128)"

definition lower_char :: "char \<Rightarrow> char" where
  "lower_char c =
     (let n = (of_char c :: nat) in if 65 \<le> n \<and> n \<le> 90 then char_of (n + 32) else c)"

definition lower :: "library \<Rightarrow> string \<Rightarrow> string" where
  "lower lib s = (if list_all is_ascii s then map lower_char s else unicode_lower lib s)"

text \<open>\<^verbatim>\<open>str.rfind\<close> of one character: the highest index holding it, or \<open>-1\<close>.\<close>

fun rfind_from :: "string \<Rightarrow> char \<Rightarrow> nat \<Rightarrow> int" where
  "rfind_from p c 0 = -1"
| "rfind_from p c (Suc i) = (if p ! i = c then int i else rfind_from p c i)"

definition rfind :: "string \<Rightarrow> char \<Rightarrow> int" where
  "rfind p c = rfind_from p c (length p)"

text \<open>
  \<^verbatim>\<open>os.path.splitext\<close> of \<^verbatim>\<open>posixpath\<close> (\<^verbatim>\<open>genericpath._splitext\<close> with
  separator \<^verbatim>\<open>/\<close>, no alternative separator and extension separator \<^verbatim>\<open>.\<close>).
  The loop skips the dots that lead the file name: it returns the split at the last dot
  as soon as it sees a character other than a dot before it.
\<close>

function skip_leading_dots :: "string \<Rightarrow> nat \<Rightarrow> nat \<Rightarrow> (string \<times> string) option" where
  "skip_leading_dots p filenameIndex dotIndex =
     (if filenameIndex < dotIndex then
        (if p ! filenameIndex \<noteq> CHR ''.'' then Some (take dotIndex p, drop dotIndex p)
         else skip_leading_dots p (filenameIndex + 1) dotIndex)
      else None)"
  by pat_completeness auto
termination
  by (relation "measure (\<lambda>(p, filenameIndex, dotIndex). dotIndex - filenameIndex)") auto

definition splitext :: "string \<Rightarrow> string \<times> string" where
  "splitext p =
     (let sepIndex = rfind p CHR ''/'';
          dotIndex = rfind p CHR ''.''
      in if dotIndex > sepIndex then
           (case skip_leading_dots p (nat (sepIndex + 1)) (nat dotIndex) of
              Some r \<Rightarrow> r
            | None \<Rightarrow> (p, []))
         else (p, []))"

text \<open>\<^verbatim>\<open>os.path.join\<close> of \<^verbatim>\<open>posixpath\<close>, for two components.\<close>

definition join :: "string \<Rightarrow> string \<Rightarrow> string" where
  "join a b =
     (if take 1 b = ''/'' then b
      else if a = [] \<or> drop (length a - 1) a = ''/'' then a @ b
      else a @ ''/'' @ b)"

text \<open>\<^verbatim>\<open>bytes.decode('ascii')\<close>: every byte must be below 128.\<close>

definition decode_ascii :: "string \<Rightarrow> error + string" where
  "decode_ascii contents =
     (if list_all is_ascii contents then Inr contents
      else Inl (UnicodeDecodeError (length (takeWhile is_ascii contents))))"

text \<open>\<^verbatim>\<open>int(x)\<close> of a floating point number: truncation towards zero.\<close>

definition py_int :: "real \<Rightarrow> int" where
  "py_int x = (if 0 \<le> x then \<lfloor>x\<rfloor> else \<lceil>x\<rceil>)"

text \<open>
  \<^verbatim>\<open>row.get(key)\<close>: \<^verbatim>\<open>None\<close> when the key is absent. The truth value of an
  optional string: \<^verbatim>\<open>None\<close> and the empty string are false. \<^verbatim>\<open>a or b\<close> is
  \<open>a\<close> when \<open>a\<close> is true, else \<open>b\<close>.
\<close>

definition row_get :: "csv_row \<Rightarrow> string \<Rightarrow> string option" where
  "row_get row key = (case row key of None \<Rightarrow> None | Some field \<Rightarrow> field)"

fun truthy :: "string option \<Rightarrow> bool" where
  "truthy None = False"
| "truthy (Some s) = (s \<noteq> [])"

definition py_or :: "string option \<Rightarrow> string option \<Rightarrow> string option" where
  "py_or a b = (if truthy a then a else b)"

subsection \<open>The function\<close>

type_synonym eol_table = "string \<rightharpoonup> (string \<rightharpoonup> int)"

text \<open>
  \<^verbatim>\<open>known_dates[distributor_id][series] = value\<close>: the subscript
  \<^verbatim>\<open>known_dates[distributor_id]\<close> raises \<^verbatim>\<open>KeyError\<close> when the key is absent.
\<close>

definition store :: "eol_table \<Rightarrow> string \<Rightarrow> string \<Rightarrow> int \<Rightarrow> error + eol_table" where
  "store known_dates distributor_id series v =
     (case known_dates distributor_id of
        None \<Rightarrow> Inl (KeyError distributor_id)
      | Some releases \<Rightarrow> Inr (known_dates(distributor_id \<mapsto> releases(series \<mapsto> v))))"

text \<open>
  \<^verbatim>\<open>time.mktime(parse_date(eol) + (-1, -1, -1))\<close>: the tuple of the parser, extended
  by the week day, the day of the year and the daylight saving flag, all unknown.
\<close>

definition eol_timestamp :: "library \<Rightarrow> string \<Rightarrow> error + real" where
  "eol_timestamp lib eol =
     (case parse_date lib eol of
        Inl e \<Rightarrow> Inl e
      | Inr date \<Rightarrow> mktime lib (date @ [-1, -1, -1]))"

text \<open>The body of the loop over the rows of one file (lines 139 to 143).\<close>

definition process_row :: "library \<Rightarrow> string \<Rightarrow> eol_table \<Rightarrow> csv_row \<Rightarrow> error + eol_table" where
  "process_row lib distributor_id known_dates row =
     (let series = row_get row ''series'';
          eol = py_or (row_get row ''eol-server'') (row_get row ''eol'')
      in if truthy series \<and> truthy eol then
           (case (series, eol) of
              (Some s, Some d) \<Rightarrow>
                (case eol_timestamp lib d of
                   Inl e \<Rightarrow> Inl e
                 | Inr t \<Rightarrow> store known_dates distributor_id s (py_int t))
            | _ \<Rightarrow> Inr known_dates)
         else Inr known_dates)"

text \<open>
  The loop over the rows: the rows the reader yields are processed in order; the
  exception that ends the iteration, if any, is raised after them.
\<close>

fun process_rows ::
  "library \<Rightarrow> string \<Rightarrow> eol_table \<Rightarrow> csv_row list \<Rightarrow> error option \<Rightarrow> error + eol_table" where
  "process_rows lib distributor_id known_dates [] None = Inr known_dates"
| "process_rows lib distributor_id known_dates [] (Some e) = Inl e"
| "process_rows lib distributor_id known_dates (row # rows) fin =
     (case process_row lib distributor_id known_dates row of
        Inl e \<Rightarrow> Inl e
      | Inr known_dates' \<Rightarrow> process_rows lib distributor_id known_dates' rows fin)"

text \<open>The body of the loop over the directory entries (lines 131 to 143).\<close>

definition process_entry ::
  "exec_context \<Rightarrow> library \<Rightarrow> string \<Rightarrow> eol_table \<Rightarrow> string \<Rightarrow> error + eol_table" where
  "process_entry ctx lib directory known_dates entry =
     (let filename = join directory entry;
          (basename, extension) = splitext entry
      in if lower lib extension = ''.csv'' then
           (let distributor_id = lower lib basename;
                known_dates = known_dates(distributor_id \<mapsto> Map.empty)
            in case read_file ctx filename of
                 Inl e \<Rightarrow> Inl e
               | Inr contents \<Rightarrow>
                   (case decode_ascii contents of
                      Inl e \<Rightarrow> Inl e
                    | Inr text \<Rightarrow>
                        (case DictReader lib text of
                           (rows, fin) \<Rightarrow> process_rows lib distributor_id known_dates rows fin)))
         else Inr known_dates)"

fun gather_entries ::
  "exec_context \<Rightarrow> library \<Rightarrow> string \<Rightarrow> eol_table \<Rightarrow> string list \<Rightarrow> error + eol_table" where
  "gather_entries ctx lib directory known_dates [] = Inr known_dates"
| "gather_entries ctx lib directory known_dates (entry # entries) =
     (case process_entry ctx lib directory known_dates entry of
        Inl e \<Rightarrow> Inl e
      | Inr known_dates' \<Rightarrow> gather_entries ctx lib directory known_dates' entries)"

definition gather_eol_dates :: "exec_context \<Rightarrow> library \<Rightarrow> string \<Rightarrow> error + eol_table" where
  "gather_eol_dates ctx lib directory =
     (case is_directory ctx directory of
        Inl e \<Rightarrow> Inl e
      | Inr True \<Rightarrow>
          (case list_entries ctx directory of
             Inl e \<Rightarrow> Inl e
           | Inr entries \<Rightarrow> gather_entries ctx lib directory Map.empty entries)
      | Inr False \<Rightarrow> Inr Map.empty)"

subsection \<open>Notions used in the statements\<close>

text \<open>
  The test of line 133 and the key of line 134, as functions of the directory entry.
\<close>

definition recognized :: "library \<Rightarrow> string \<Rightarrow> bool" where
  "recognized lib entry = (lower lib (snd (splitext entry)) = ''.csv'')"

definition distributor_of :: "library \<Rightarrow> string \<Rightarrow> string" where
  "distributor_of lib entry = lower lib (fst (splitext entry))"

text \<open>Two strings are equal when compared without regard to the case of letters.\<close>

definition equal_ignoring_case :: "library \<Rightarrow> string \<Rightarrow> string \<Rightarrow> bool" where
  "equal_ignoring_case lib a b = (lower lib a = lower lib b)"

text \<open>
  The records the loop of line 138 runs over for a directory entry: those the reader
  yields for the decoded contents of the file (none when the file cannot be read or
  decoded).
\<close>

definition records_of :: "exec_context \<Rightarrow> library \<Rightarrow> string \<Rightarrow> string \<Rightarrow> csv_row list" where
  "records_of ctx lib directory entry =
     (case read_file ctx (join directory entry) of
        Inl e \<Rightarrow> []
      | Inr contents \<Rightarrow>
          (case decode_ascii contents of
             Inl e \<Rightarrow> []
           | Inr text \<Rightarrow> fst (DictReader lib text)))"

text \<open>
  A record gives the value \<open>v\<close> for a series: its \<^verbatim>\<open>series\<close> field is that
  series, and \<open>v\<close> is the integer part of the time stamp of its end-of-life field
  (line 140: the \<^verbatim>\<open>eol-server\<close> field, or else the \<^verbatim>\<open>eol\<close> field), both not
  empty.
\<close>

definition record_gives :: "library \<Rightarrow> csv_row \<Rightarrow> string \<Rightarrow> int \<Rightarrow> bool" where
  "record_gives lib row series v =
     (row_get row ''series'' = Some series \<and> series \<noteq> [] \<and>
      (\<exists>x t. py_or (row_get row ''eol-server'') (row_get row ''eol'') = Some x \<and> x \<noteq> [] \<and>
         eol_timestamp lib x = Inr t \<and> v = py_int t))"

text \<open>
  A field of a record is missing (the column is absent, or the row is too short to
  reach it), or it is present only as an empty value.
\<close>

definition missing_or_empty :: "csv_row \<Rightarrow> string \<Rightarrow> bool" where
  "missing_or_empty row key = (row key = None \<or> row key = Some None \<or> row key = Some (Some []))"

subsection \<open>Collaborators for concrete runs\<close>

text \<open>
  A context over a host whose only directory is \<open>directory\<close>, holding the files
  \<open>files\<close> (names and contents, in the order they are listed).
\<close>

definition dir_context :: "string \<Rightarrow> (string \<times> string) list \<Rightarrow> exec_context" where
  "dir_context directory files =
     \<lparr> is_directory = (\<lambda>path. Inr (path = directory)),
       list_entries = (\<lambda>path.
         if path = directory then Inr (map fst files) else Inl (ContextError path)),
       read_file = (\<lambda>path.
         case map_of (map (\<lambda>(name, contents). (join directory name, contents)) files) path of
           None \<Rightarrow> Inl (ContextError path)
         | Some contents \<Rightarrow> Inr contents) \<rparr>"

text \<open>
  A library given by finite tables: the rows of each known text, the tuple of each
  known date string, the time stamp of each known tuple and the lower case of each
  known string outside ASCII. The reader yields the rows of a known text and nothing
  else; an unknown date string is invalid; an unknown string outside ASCII is its own
  lower case.
\<close>

definition table_library ::
  "(string \<times> csv_row list) list \<Rightarrow> (string \<times> int list) list \<Rightarrow> (int list \<times> real) list \<Rightarrow>
   (string \<times> string) list \<Rightarrow> library" where
  "table_library texts dates stamps cases =
     \<lparr> DictReader = (\<lambda>text.
         case map_of texts text of
           None \<Rightarrow> ([], Some (CsvError text))
         | Some rows \<Rightarrow> (rows, None)),
       parse_date = (\<lambda>s.
         case map_of dates s of None \<Rightarrow> Inl (InvalidDate s) | Some date \<Rightarrow> Inr date),
       mktime = (\<lambda>tuple.
         case map_of stamps tuple of None \<Rightarrow> Inl OverflowError | Some t \<Rightarrow> Inr t),
       unicode_lower = (\<lambda>s. case map_of cases s of None \<Rightarrow> s | Some l \<Rightarrow> l) \<rparr>"

text \<open>
  What \<^verbatim>\<open>humanfriendly.parse_date\<close> returns for some date strings, and what
  \<^verbatim>\<open>time.mktime\<close> returns for their tuples in the time zone Europe/Amsterdam, the
  zone of the values in \<^verbatim>\<open>KNOWN_EOL_DATES\<close> (squeeze 1401487200, wheezy
  1461621600, warty 1146348000, dapper 1306879200).
\<close>

definition known_dates_table :: "(string \<times> int list) list" where
  "known_dates_table =
     [(''2014-05-31'', [2014, 5, 31, 0, 0, 0]),
      (''2014-05-31 12:30:45'', [2014, 5, 31, 12, 30, 45]),
      (''2016-04-26'', [2016, 4, 26, 0, 0, 0]),
      (''2006-04-30'', [2006, 4, 30, 0, 0, 0]),
      (''2009-07-14'', [2009, 7, 14, 0, 0, 0]),
      (''2011-06-01'', [2011, 6, 1, 0, 0, 0])]"

definition amsterdam_times :: "(int list \<times> real) list" where
  "amsterdam_times =
     [([2014, 5, 31, 0, 0, 0, -1, -1, -1], 1401487200),
      ([2014, 5, 31, 12, 30, 45, -1, -1, -1], 1401532245),
      ([2016, 4, 26, 0, 0, 0, -1, -1, -1], 1461621600),
      ([2006, 4, 30, 0, 0, 0, -1, -1, -1], 1146348000),
      ([2009, 7, 14, 0, 0, 0, -1, -1, -1], 1247522400),
      ([2011, 6, 1, 0, 0, 0, -1, -1, -1], 1306879200)]"

text \<open>Texts of files, line by line, and the rows the reader yields for them.\<close>

definition csv_text :: "string list \<Rightarrow> string" where
  "csv_text lines = concat (map (\<lambda>line. line @ [CHR 0x0A]) lines)"

definition known_texts :: "(string \<times> csv_row list) list" where
  "known_texts =
     [(csv_text [''series,eol'', ''squeeze,2014-05-31''],
         [[''series'' \<mapsto> Some ''squeeze'', ''eol'' \<mapsto> Some ''2014-05-31'']]),
      (csv_text [''series,eol'', ''squeeze,2014-05-31 12:30:45''],
         [[''series'' \<mapsto> Some ''squeeze'', ''eol'' \<mapsto> Some ''2014-05-31 12:30:45'']]),
      (csv_text [''series,eol'', ''wheezy,2016-04-26''],
         [[''series'' \<mapsto> Some ''wheezy'', ''eol'' \<mapsto> Some ''2016-04-26'']]),
      (csv_text [''series,eol'', ''sid''],
         [[''series'' \<mapsto> Some ''sid'', ''eol'' \<mapsto> None]]),
      (csv_text [''series,eol'', ''buster,soon''],
         [[''series'' \<mapsto> Some ''buster'', ''eol'' \<mapsto> Some ''soon'']]),
      (csv_text [''series,eol,eol-server'', ''warty,2006-04-30,''],
         [[''series'' \<mapsto> Some ''warty'', ''eol'' \<mapsto> Some ''2006-04-30'',
           ''eol-server'' \<mapsto> Some []]]),
      (csv_text [''series,eol,eol-server'', ''dapper,2009-07-14,2011-06-01''],
         [[''series'' \<mapsto> Some ''dapper'', ''eol'' \<mapsto> Some ''2009-07-14'',
           ''eol-server'' \<mapsto> Some ''2011-06-01'']])]"

text \<open>
  The letter E with acute accent, capital (U+00C9) and small (U+00E9), in UTF-8, and
  what \<^verbatim>\<open>str.lower\<close> returns for the capital one.
\<close>

definition capital_e_acute :: string where
  "capital_e_acute = [CHR 0xC3, CHR 0x89]"

definition small_e_acute :: string where
  "small_e_acute = [CHR 0xC3, CHR 0xA9]"

definition known_cases :: "(string \<times> string) list" where
  "known_cases = [(capital_e_acute, small_e_acute)]"

definition amsterdam_library :: library where
  "amsterdam_library = table_library known_texts known_dates_table amsterdam_times known_cases"

section \<open>Properties\<close>

subsection \<open>The standard library functions\<close>

lemma recognized_examples:
  "recognized lib ''debian.csv''" "\<not> recognized lib ''README''" "\<not> recognized lib ''debian.csv.bak''"
  "recognized lib ''Ubuntu.CSV''" "\<not> recognized lib ''.csv''"
  "recognized lib ''Debian.csv''" "recognized lib ''debian.CSV''" "recognized lib ''ubuntu.csv''"
  "recognized lib (capital_e_acute @ ''.csv'')" "recognized lib (small_e_acute @ ''.csv'')"
  by code_simp+

lemma distributor_of_examples:
  "distributor_of lib ''debian.csv'' = ''debian''" "distributor_of lib ''Ubuntu.CSV'' = ''ubuntu''"
  "distributor_of lib ''Debian.csv'' = ''debian''" "distributor_of lib ''debian.CSV'' = ''debian''"
  "distributor_of lib ''ubuntu.csv'' = ''ubuntu''"
  by code_simp+

lemma splitext_examples:
  "splitext ''Ubuntu.CSV'' = (''Ubuntu'', ''.CSV'')"
  "splitext (capital_e_acute @ ''.csv'') = (capital_e_acute, ''.csv'')"
  "splitext (small_e_acute @ ''.csv'') = (small_e_acute, ''.csv'')"
  by code_simp+

lemma join_examples:
  "join ''/usr/share/distro-info'' ''debian.csv'' = ''/usr/share/distro-info/debian.csv''"
  "join ''/usr/share/distro-info'' ''README'' = ''/usr/share/distro-info/README''"
  "join ''/usr/share/distro-info'' ''Ubuntu.CSV'' = ''/usr/share/distro-info/Ubuntu.CSV''"
  "join ''/usr/share/distro-info'' ''Debian.csv'' = ''/usr/share/distro-info/Debian.csv''"
  "join ''/usr/share/distro-info'' ''debian.CSV'' = ''/usr/share/distro-info/debian.CSV''"
  "join ''/usr/share/distro-info'' ''ubuntu.csv'' = ''/usr/share/distro-info/ubuntu.csv''"
  "join ''/usr/share/distro-info'' (capital_e_acute @ ''.csv'') =
     ''/usr/share/distro-info/'' @ capital_e_acute @ ''.csv''"
  "join ''/usr/share/distro-info'' (small_e_acute @ ''.csv'') =
     ''/usr/share/distro-info/'' @ small_e_acute @ ''.csv''"
  by code_simp+

lemma decode_ascii_examples:
  "decode_ascii (csv_text [''series,eol'', ''squeeze,2014-05-31'']) =
     Inr (csv_text [''series,eol'', ''squeeze,2014-05-31''])"
  "decode_ascii (csv_text [''series,eol'', ''squeeze,2014-05-31 12:30:45'']) =
     Inr (csv_text [''series,eol'', ''squeeze,2014-05-31 12:30:45''])"
  "decode_ascii (csv_text [''series,eol'', ''wheezy,2016-04-26'']) =
     Inr (csv_text [''series,eol'', ''wheezy,2016-04-26''])"
  "decode_ascii (csv_text [''series,eol'', ''sid'']) = Inr (csv_text [''series,eol'', ''sid''])"
  "decode_ascii (csv_text [''series,eol'', ''buster,soon'']) =
     Inr (csv_text [''series,eol'', ''buster,soon''])"
  "decode_ascii (csv_text [''series,eol,eol-server'', ''warty,2006-04-30,'']) =
     Inr (csv_text [''series,eol,eol-server'', ''warty,2006-04-30,''])"
  "decode_ascii (csv_text [''series,eol,eol-server'', ''dapper,2009-07-14,2011-06-01'']) =
     Inr (csv_text [''series,eol,eol-server'', ''dapper,2009-07-14,2011-06-01''])"
  "decode_ascii [CHR 0x73, CHR 0xC3, CHR 0xA9] = Inl (UnicodeDecodeError 1)"
  by code_simp+

subsection \<open>The tables of the concrete library\<close>

lemma amsterdam_eol_timestamp:
  "parse_date amsterdam_library ''2014-05-31'' = Inr [2014, 5, 31, 0, 0, 0]"
  "parse_date amsterdam_library ''2014-05-31 12:30:45'' = Inr [2014, 5, 31, 12, 30, 45]"
  "parse_date amsterdam_library ''soon'' = Inl (InvalidDate ''soon'')"
  "parse_date amsterdam_library [] = Inl (InvalidDate [])"
  "mktime amsterdam_library [2014, 5, 31, 0, 0, 0, -1, -1, -1] = Inr 1401487200"
  "mktime amsterdam_library [2014, 5, 31, 12, 30, 45, -1, -1, -1] = Inr 1401532245"
  "eol_timestamp amsterdam_library ''2014-05-31'' = Inr 1401487200"
  "eol_timestamp amsterdam_library ''2014-05-31 12:30:45'' = Inr 1401532245"
  "eol_timestamp amsterdam_library ''2016-04-26'' = Inr 1461621600"
  "eol_timestamp amsterdam_library ''2006-04-30'' = Inr 1146348000"
  "eol_timestamp amsterdam_library ''2009-07-14'' = Inr 1247522400"
  "eol_timestamp amsterdam_library ''2011-06-01'' = Inr 1306879200"
  "eol_timestamp amsterdam_library ''soon'' = Inl (InvalidDate ''soon'')"
  "eol_timestamp amsterdam_library [] = Inl (InvalidDate [])"
  by (simp_all add: eol_timestamp_def amsterdam_library_def table_library_def
        known_dates_table_def amsterdam_times_def)

lemma lower_examples:
  "lower amsterdam_library ''Ubuntu'' = ''ubuntu''"
  "lower amsterdam_library capital_e_acute = small_e_acute"
  "lower amsterdam_library small_e_acute = small_e_acute"
  "distributor_of amsterdam_library (capital_e_acute @ ''.csv'') = small_e_acute"
  "distributor_of amsterdam_library (small_e_acute @ ''.csv'') = small_e_acute"
  by code_simp+

lemma e_acute_distinct:
  "capital_e_acute @ ''.csv'' \<noteq> small_e_acute @ ''.csv''"
  "small_e_acute \<noteq> ''ubuntu''" "''ubuntu'' \<noteq> small_e_acute"
  "capital_e_acute \<noteq> small_e_acute" "small_e_acute \<noteq> capital_e_acute"
  by code_simp+

lemma amsterdam_DictReader:
  "DictReader amsterdam_library (csv_text [''series,eol'', ''squeeze,2014-05-31'']) =
     ([[''series'' \<mapsto> Some ''squeeze'', ''eol'' \<mapsto> Some ''2014-05-31'']], None)"
  "DictReader amsterdam_library (csv_text [''series,eol'', ''squeeze,2014-05-31 12:30:45'']) =
     ([[''series'' \<mapsto> Some ''squeeze'', ''eol'' \<mapsto> Some ''2014-05-31 12:30:45'']], None)"
  "DictReader amsterdam_library (csv_text [''series,eol'', ''wheezy,2016-04-26'']) =
     ([[''series'' \<mapsto> Some ''wheezy'', ''eol'' \<mapsto> Some ''2016-04-26'']], None)"
  "DictReader amsterdam_library (csv_text [''series,eol'', ''sid'']) =
     ([[''series'' \<mapsto> Some ''sid'', ''eol'' \<mapsto> None]], None)"
  "DictReader amsterdam_library (csv_text [''series,eol'', ''buster,soon'']) =
     ([[''series'' \<mapsto> Some ''buster'', ''eol'' \<mapsto> Some ''soon'']], None)"
  "DictReader amsterdam_library (csv_text [''series,eol,eol-server'', ''warty,2006-04-30,'']) =
     ([[''series'' \<mapsto> Some ''warty'', ''eol'' \<mapsto> Some ''2006-04-30'',
        ''eol-server'' \<mapsto> Some []]], None)"
  "DictReader amsterdam_library
     (csv_text [''series,eol,eol-server'', ''dapper,2009-07-14,2011-06-01'']) =
     ([[''series'' \<mapsto> Some ''dapper'', ''eol'' \<mapsto> Some ''2009-07-14'',
        ''eol-server'' \<mapsto> Some ''2011-06-01'']], None)"
  by (simp_all add: amsterdam_library_def table_library_def known_texts_def csv_text_def)

subsection \<open>The loops\<close>

lemma process_entry_unrecognized:
  "\<not> recognized lib entry \<Longrightarrow> process_entry ctx lib directory known_dates entry = Inr known_dates"
  by (simp add: process_entry_def recognized_def case_prod_beta)

lemma process_entry_recognized:
  "recognized lib entry \<Longrightarrow>
   process_entry ctx lib directory known_dates entry =
     (case read_file ctx (join directory entry) of
        Inl e \<Rightarrow> Inl e
      | Inr contents \<Rightarrow>
          (case decode_ascii contents of
             Inl e \<Rightarrow> Inl e
           | Inr text \<Rightarrow>
               process_rows lib (distributor_of lib entry)
                 (known_dates(distributor_of lib entry \<mapsto> Map.empty))
                 (fst (DictReader lib text)) (snd (DictReader lib text))))"
  by (simp add: process_entry_def recognized_def distributor_of_def Let_def case_prod_beta
        split: sum.splits)

lemma gather_entries_filter:
  "gather_entries ctx lib directory known_dates entries =
   gather_entries ctx lib directory known_dates (filter (recognized lib) entries)"
  by (induction entries arbitrary: known_dates)
     (auto simp: process_entry_unrecognized split: sum.splits)

lemma gather_entries_append:
  "gather_entries ctx lib directory known_dates (xs @ ys) =
     (case gather_entries ctx lib directory known_dates xs of
        Inl e \<Rightarrow> Inl e
      | Inr known_dates' \<Rightarrow> gather_entries ctx lib directory known_dates' ys)"
  by (induction xs arbitrary: known_dates) (auto split: sum.splits)

lemma process_rows_append:
  "process_rows lib d known_dates (xs @ ys) fin =
     (case process_rows lib d known_dates xs None of
        Inl e \<Rightarrow> Inl e
      | Inr known_dates' \<Rightarrow> process_rows lib d known_dates' ys fin)"
  by (induction xs arbitrary: known_dates) (auto split: sum.splits)

lemma truthy_iff: "truthy v \<longleftrightarrow> (\<exists>s. v = Some s \<and> s \<noteq> [])"
  by (cases v) auto

lemma process_row_skip:
  "\<not> (truthy (row_get row ''series'') \<and>
       truthy (py_or (row_get row ''eol-server'') (row_get row ''eol''))) \<Longrightarrow>
   process_row lib d known_dates row = Inr known_dates"
  by (auto simp: process_row_def Let_def)

lemma process_row_store:
  assumes "row_get row ''series'' = Some s" "s \<noteq> []"
    and "py_or (row_get row ''eol-server'') (row_get row ''eol'') = Some x" "x \<noteq> []"
  shows "process_row lib d known_dates row =
     (case eol_timestamp lib x of
        Inl e \<Rightarrow> Inl e
      | Inr t \<Rightarrow> store known_dates d s (py_int t))"
  using assms by (simp add: process_row_def Let_def)

lemma process_row_cases:
  assumes "process_row lib d known_dates row = Inr known_dates'"
    and "known_dates d = Some releases"
  shows "known_dates' = known_dates \<or>
     (\<exists>s x t. row_get row ''series'' = Some s \<and> s \<noteq> [] \<and>
        py_or (row_get row ''eol-server'') (row_get row ''eol'') = Some x \<and> x \<noteq> [] \<and>
        eol_timestamp lib x = Inr t \<and>
        known_dates' = known_dates(d \<mapsto> releases(s \<mapsto> py_int t)))"
proof (cases "truthy (row_get row ''series'') \<and>
       truthy (py_or (row_get row ''eol-server'') (row_get row ''eol''))")
  case False
  with assms(1) show ?thesis by (simp add: process_row_skip)
next
  case True
  then obtain s x where sx: "row_get row ''series'' = Some s" "s \<noteq> []"
      "py_or (row_get row ''eol-server'') (row_get row ''eol'') = Some x" "x \<noteq> []"
    by (auto simp: truthy_iff)
  from assms show ?thesis
    unfolding process_row_store [OF sx]
    using sx by (auto simp: store_def split: sum.splits)
qed

lemma process_row_frame:
  assumes "process_row lib d known_dates row = Inr known_dates'"
  shows "k \<noteq> d \<Longrightarrow> known_dates' k = known_dates k"
    and "known_dates d \<noteq> None \<Longrightarrow> known_dates' d \<noteq> None"
  using assms
  by (auto simp: process_row_def Let_def store_def split: if_splits option.splits sum.splits)

lemma process_rows_frame:
  assumes "process_rows lib d known_dates rows fin = Inr known_dates'"
  shows "(k \<noteq> d \<longrightarrow> known_dates' k = known_dates k) \<and>
         (known_dates d \<noteq> None \<longrightarrow> known_dates' d \<noteq> None) \<and> fin = None"
  using assms
proof (induction rows arbitrary: known_dates)
  case Nil
  then show ?case by (cases fin) auto
next
  case (Cons row rows)
  then obtain mid where mid: "process_row lib d known_dates row = Inr mid"
      and rest: "process_rows lib d mid rows fin = Inr known_dates'"
    by (auto split: sum.splits)
  from Cons.IH [OF rest] process_row_frame [OF mid] show ?case by auto
qed

text \<open>The effect of the rows on the key of the file depends on the value at that key only.\<close>

lemma process_row_local:
  assumes "known_dates1 d = known_dates2 d"
  shows "(case process_row lib d known_dates1 row of
            Inl e \<Rightarrow> process_row lib d known_dates2 row = Inl e
          | Inr r1 \<Rightarrow> \<exists>r2. process_row lib d known_dates2 row = Inr r2 \<and> r2 d = r1 d)"
  using assms
  by (auto simp: process_row_def Let_def store_def split: option.splits sum.splits)

lemma process_rows_local:
  assumes "known_dates1 d = known_dates2 d"
  shows "(case process_rows lib d known_dates1 rows fin of
            Inl e \<Rightarrow> process_rows lib d known_dates2 rows fin = Inl e
          | Inr r1 \<Rightarrow> \<exists>r2. process_rows lib d known_dates2 rows fin = Inr r2 \<and> r2 d = r1 d)"
  using assms
proof (induction rows arbitrary: known_dates1 known_dates2)
  case Nil
  then show ?case by (cases fin) auto
next
  case (Cons row rows)
  show ?case
  proof (cases "process_row lib d known_dates1 row")
    case (Inl e)
    with process_row_local [of known_dates1 d known_dates2 lib row] Cons.prems
    show ?thesis by simp
  next
    case (Inr r1)
    with process_row_local [of known_dates1 d known_dates2 lib row] Cons.prems
    obtain r2 where r2: "process_row lib d known_dates2 row = Inr r2" "r2 d = r1 d"
      by auto
    from Cons.IH [of r1 r2] r2 Inr show ?thesis
      by (cases "process_rows lib d r1 rows fin") auto
  qed
qed

lemma process_rows_provenance:
  assumes "process_rows lib d known_dates rows fin = Inr known_dates'"
    and "known_dates d = Some releases"
    and "known_dates' d = Some releases'"
    and "releases' s = Some v"
  shows "releases s = Some v \<or>
     (\<exists>row \<in> set rows. \<exists>x t. row_get row ''series'' = Some s \<and> s \<noteq> [] \<and>
        py_or (row_get row ''eol-server'') (row_get row ''eol'') = Some x \<and> x \<noteq> [] \<and>
        eol_timestamp lib x = Inr t \<and> v = py_int t)"
  using assms
proof (induction rows arbitrary: known_dates releases)
  case Nil
  then show ?case by (cases fin) auto
next
  case (Cons row rows)
  then obtain mid where mid: "process_row lib d known_dates row = Inr mid"
      and rest: "process_rows lib d mid rows fin = Inr known_dates'"
    by (auto split: sum.splits)
  from process_row_cases [OF mid Cons.prems(2)]
  consider (same) "mid = known_dates"
    | (stored) s' x t where "row_get row ''series'' = Some s'" "s' \<noteq> []"
        "py_or (row_get row ''eol-server'') (row_get row ''eol'') = Some x" "x \<noteq> []"
        "eol_timestamp lib x = Inr t" "mid = known_dates(d \<mapsto> releases(s' \<mapsto> py_int t))"
    by blast
  then show ?case
  proof cases
    case same
    with Cons.IH [OF rest _ Cons.prems(3,4), of releases] Cons.prems(2)
    show ?thesis by auto
  next
    case stored
    then have "mid d = Some (releases(s' \<mapsto> py_int t))" by simp
    from Cons.IH [OF rest this Cons.prems(3,4)] stored
    show ?thesis by (auto split: if_splits)
  qed
qed

lemma process_entry_frame:
  assumes "process_entry ctx lib directory known_dates entry = Inr known_dates'"
    and "recognized lib entry \<longrightarrow> distributor_of lib entry \<noteq> k"
  shows "known_dates' k = known_dates k"
proof (cases "recognized lib entry")
  case False
  with assms(1) show ?thesis by (simp add: process_entry_unrecognized)
next
  case True
  with assms(2) have ne: "k \<noteq> distributor_of lib entry" by auto
  from assms(1) True obtain decoded where
    "process_rows lib (distributor_of lib entry) (known_dates(distributor_of lib entry \<mapsto> Map.empty))
       (fst (DictReader lib decoded)) (snd (DictReader lib decoded)) = Inr known_dates'"
    by (auto simp: process_entry_recognized split: sum.splits)
  from process_rows_frame [OF this, of k] ne show ?thesis by simp
qed

lemma process_entry_key:
  assumes "process_entry ctx lib directory known_dates entry = Inr known_dates'"
    and "recognized lib entry"
  shows "known_dates' (distributor_of lib entry) \<noteq> None"
proof -
  from assms obtain decoded where
    "process_rows lib (distributor_of lib entry) (known_dates(distributor_of lib entry \<mapsto> Map.empty))
       (fst (DictReader lib decoded)) (snd (DictReader lib decoded)) = Inr known_dates'"
    by (auto simp: process_entry_recognized split: sum.splits)
  from process_rows_frame [OF this, of "distributor_of lib entry"] show ?thesis by simp
qed

lemma process_entry_dom:
  assumes "process_entry ctx lib directory known_dates entry = Inr known_dates'"
  shows "dom known_dates' =
     (if recognized lib entry then insert (distributor_of lib entry) (dom known_dates)
      else dom known_dates)"
proof (cases "recognized lib entry")
  case False
  with assms show ?thesis by (simp add: process_entry_unrecognized)
next
  case True
  have "k \<in> dom known_dates' \<longleftrightarrow> k \<in> insert (distributor_of lib entry) (dom known_dates)" for k
    using process_entry_frame [OF assms, of k] process_entry_key [OF assms True]
    by (cases "k = distributor_of lib entry") (auto simp: dom_def)
  with True show ?thesis by auto
qed

lemma gather_entries_dom:
  "gather_entries ctx lib directory known_dates entries = Inr known_dates' \<Longrightarrow>
   dom known_dates' = dom known_dates \<union> distributor_of lib ` {e \<in> set entries. recognized lib e}"
proof (induction entries arbitrary: known_dates)
  case Nil
  then show ?case by simp
next
  case (Cons entry entries)
  then obtain mid where mid: "process_entry ctx lib directory known_dates entry = Inr mid"
      and rest: "gather_entries ctx lib directory mid entries = Inr known_dates'"
    by (auto split: sum.splits)
  from Cons.IH [OF rest] process_entry_dom [OF mid] show ?case by auto
qed

lemma gather_entries_frame:
  "gather_entries ctx lib directory known_dates entries = Inr known_dates' \<Longrightarrow>
   \<forall>e \<in> set entries. recognized lib e \<longrightarrow> distributor_of lib e \<noteq> k \<Longrightarrow>
   known_dates' k = known_dates k"
proof (induction entries arbitrary: known_dates)
  case Nil
  then show ?case by simp
next
  case (Cons entry entries)
  then obtain mid where mid: "process_entry ctx lib directory known_dates entry = Inr mid"
      and rest: "gather_entries ctx lib directory mid entries = Inr known_dates'"
    by (auto split: sum.splits)
  from Cons.IH [OF rest] process_entry_frame [OF mid, of k] Cons.prems(2)
  show ?case by simp
qed

lemma process_entry_same_reads:
  "(recognized lib entry \<longrightarrow>
      read_file ctx1 (join directory entry) = read_file ctx2 (join directory entry)) \<Longrightarrow>
   process_entry ctx1 lib directory known_dates entry =
   process_entry ctx2 lib directory known_dates entry"
  by (cases "recognized lib entry")
     (simp_all add: process_entry_recognized process_entry_unrecognized)

lemma gather_entries_same_reads:
  "\<forall>entry \<in> set entries. recognized lib entry \<longrightarrow>
      read_file ctx1 (join directory entry) = read_file ctx2 (join directory entry) \<Longrightarrow>
   gather_entries ctx1 lib directory known_dates entries =
   gather_entries ctx2 lib directory known_dates entries"
proof (induction entries arbitrary: known_dates)
  case Nil
  then show ?case by simp
next
  case (Cons entry entries)
  then have "process_entry ctx1 lib directory known_dates entry =
      process_entry ctx2 lib directory known_dates entry"
    by (intro process_entry_same_reads) simp
  with Cons show ?case by (simp split: sum.splits)
qed

lemma process_rows_all_skipped:
  "\<forall>row \<in> set rows. \<not> (truthy (row_get row ''series'') \<and>
       truthy (py_or (row_get row ''eol-server'') (row_get row ''eol''))) \<Longrightarrow>
   process_rows lib d known_dates rows fin =
     (case fin of None \<Rightarrow> Inr known_dates | Some e \<Rightarrow> Inl e)"
  by (induction rows) (auto simp: process_row_skip split: option.splits)

lemma process_entry_run:
  assumes "process_entry ctx lib directory known_dates entry = Inr known_dates'"
    and "recognized lib entry"
  shows "process_rows lib (distributor_of lib entry)
           (known_dates(distributor_of lib entry \<mapsto> Map.empty))
           (records_of ctx lib directory entry) None = Inr known_dates'"
proof -
  from assms obtain contents decoded where c: "read_file ctx (join directory entry) = Inr contents"
      and d: "decode_ascii contents = Inr decoded"
      and r: "process_rows lib (distributor_of lib entry)
        (known_dates(distributor_of lib entry \<mapsto> Map.empty))
        (fst (DictReader lib decoded)) (snd (DictReader lib decoded)) = Inr known_dates'"
    by (auto simp: process_entry_recognized split: sum.splits)
  from process_rows_frame [OF r] have "snd (DictReader lib decoded) = None" by simp
  with r c d show ?thesis by (simp add: records_of_def)
qed

lemma process_entry_provenance:
  assumes "process_entry ctx lib directory known_dates entry = Inr known_dates'"
    and "recognized lib entry"
    and "known_dates' (distributor_of lib entry) = Some releases"
    and "releases series = Some v"
  shows "\<exists>row \<in> set (records_of ctx lib directory entry). record_gives lib row series v"
  using process_rows_provenance [OF process_entry_run [OF assms(1,2)] _ assms(3,4), of Map.empty]
  by (auto simp: record_gives_def)

lemma gather_entries_provenance:
  assumes "gather_entries ctx lib directory known_dates entries = Inr known_dates'"
    and "known_dates' d = Some releases"
    and "releases series = Some v"
  shows "(\<exists>old. known_dates d = Some old \<and> old series = Some v) \<or>
     (\<exists>entry \<in> set entries. recognized lib entry \<and> distributor_of lib entry = d \<and>
        (\<exists>row \<in> set (records_of ctx lib directory entry). record_gives lib row series v))"
  using assms
proof (induction entries arbitrary: known_dates)
  case Nil
  then show ?case by simp
next
  case (Cons entry entries)
  then obtain mid where mid: "process_entry ctx lib directory known_dates entry = Inr mid"
      and rest: "gather_entries ctx lib directory mid entries = Inr known_dates'"
    by (auto split: sum.splits)
  from Cons.IH [OF rest Cons.prems(2,3)]
  consider (old) old where "mid d = Some old" "old series = Some v"
    | (later) "\<exists>entry \<in> set entries. recognized lib entry \<and> distributor_of lib entry = d \<and>
        (\<exists>row \<in> set (records_of ctx lib directory entry). record_gives lib row series v)"
    by blast
  then show ?case
  proof cases
    case later
    then show ?thesis by auto
  next
    case old
    show ?thesis
    proof (cases "recognized lib entry \<and> distributor_of lib entry = d")
      case True
      with process_entry_provenance [of ctx lib directory known_dates entry mid old series v]
        mid old show ?thesis by auto
    next
      case False
      with process_entry_frame [OF mid, of d] old show ?thesis by auto
    qed
  qed
qed

lemma last_entry_decides:
  assumes "gather_entries ctx lib directory known_dates (before @ entry # after) = Inr known_dates'"
    and "recognized lib entry"
    and "\<forall>e \<in> set after. recognized lib e \<longrightarrow> distributor_of lib e \<noteq> distributor_of lib entry"
  shows "\<exists>alone. process_entry ctx lib directory Map.empty entry = Inr alone \<and>
           known_dates' (distributor_of lib entry) = alone (distributor_of lib entry)"
proof -
  let ?d = "distributor_of lib entry"
  from assms(1) obtain k1 k2 where
        "gather_entries ctx lib directory known_dates before = Inr k1"
    and e: "process_entry ctx lib directory k1 entry = Inr k2"
    and a: "gather_entries ctx lib directory k2 after = Inr known_dates'"
    by (auto simp: gather_entries_append split: sum.splits)
  from gather_entries_frame [OF a, of ?d] assms(3) have eq: "known_dates' ?d = k2 ?d" by simp
  from e assms(2) obtain contents decoded where c: "read_file ctx (join directory entry) = Inr contents"
      and d: "decode_ascii contents = Inr decoded"
      and r: "process_rows lib ?d (k1(?d \<mapsto> Map.empty))
        (fst (DictReader lib decoded)) (snd (DictReader lib decoded)) = Inr k2"
    by (auto simp: process_entry_recognized split: sum.splits)
  from process_rows_local [of "k1(?d \<mapsto> Map.empty)" ?d "Map.empty(?d \<mapsto> Map.empty)" lib
      "fst (DictReader lib decoded)" "snd (DictReader lib decoded)"] r
  obtain alone where "process_rows lib ?d (Map.empty(?d \<mapsto> Map.empty))
        (fst (DictReader lib decoded)) (snd (DictReader lib decoded)) = Inr alone"
      and "alone ?d = k2 ?d"
    by auto
  with c d eq assms(2) show ?thesis
    by (simp add: process_entry_recognized)
qed

lemma lower_char_not_upper:
  "lower_char c \<notin> set ''ABCDEFGHIJKLMNOPQRSTUVWXYZ''"
proof -
  have range: "\<not> (65 \<le> (of_char (lower_char c) :: nat) \<and> (of_char (lower_char c) :: nat) \<le> 90)"
    by (auto simp: lower_char_def Let_def)
  have "x \<in> set ''ABCDEFGHIJKLMNOPQRSTUVWXYZ'' \<Longrightarrow>
      65 \<le> (of_char x :: nat) \<and> (of_char x :: nat) \<le> 90" for x
    by auto
  with range show ?thesis by blast
qed

lemma lower_ascii: "list_all is_ascii s \<Longrightarrow> lower lib s = map lower_char s"
  by (simp add: lower_def)

lemma lower_ascii_no_upper:
  "list_all is_ascii s \<Longrightarrow> \<forall>c \<in> set (lower lib s). c \<notin> set ''ABCDEFGHIJKLMNOPQRSTUVWXYZ''"
  unfolding lower_ascii using lower_char_not_upper by (auto simp del: set_simps)

lemma lower_char_cases:
  "(65 \<le> (of_char c :: nat) \<and> (of_char c :: nat) \<le> 90 \<and>
      (of_char (lower_char c) :: nat) = of_char c + 32) \<or>
   (\<not> (65 \<le> (of_char c :: nat) \<and> (of_char c :: nat) \<le> 90) \<and> lower_char c = c)"
proof (cases "65 \<le> (of_char c :: nat) \<and> (of_char c :: nat) \<le> 90")
  case False
  then have "lower_char c = c" unfolding lower_char_def Let_def by (rule if_not_P)
  with False show ?thesis by blast
next
  case True
  then have "lower_char c = char_of ((of_char c :: nat) + 32)"
    unfolding lower_char_def Let_def by (rule if_P)
  moreover from True
  have "(of_char (char_of ((of_char c :: nat) + 32)) :: nat) = of_char c + 32"
    by simp
  ultimately show ?thesis using True by simp
qed

lemma lower_char_ascii: "is_ascii c \<Longrightarrow> is_ascii (lower_char c)"
  using lower_char_cases [of c] unfolding is_ascii_def by auto

lemma lower_char_idem: "lower_char (lower_char c) = lower_char c"
proof -
  from lower_char_cases [of c] show ?thesis
  proof
    assume a: "65 \<le> (of_char c :: nat) \<and> (of_char c :: nat) \<le> 90 \<and>
      (of_char (lower_char c) :: nat) = of_char c + 32"
    then have "\<not> (65 \<le> (of_char (lower_char c) :: nat) \<and> (of_char (lower_char c) :: nat) \<le> 90)"
      by simp
    with lower_char_cases [of "lower_char c"] show ?thesis by blast
  next
    assume "\<not> (65 \<le> (of_char c :: nat) \<and> (of_char c :: nat) \<le> 90) \<and> lower_char c = c"
    then show ?thesis by simp
  qed
qed

lemma skip_leading_dots_result:
  "skip_leading_dots p i j = Some r \<Longrightarrow> r = (take j p, drop j p)"
  by (induction p i j rule: skip_leading_dots.induct) (auto split: if_splits)


lemma splitext_fst: "fst (splitext p) = p \<or> (\<exists>n. fst (splitext p) = take n p)"
proof (cases "rfind p CHR ''.'' > rfind p CHR ''/''")
  case False
  then show ?thesis by (simp add: splitext_def Let_def)
next
  case True
  show ?thesis
  proof (cases "skip_leading_dots p (nat (rfind p CHR ''/'' + 1)) (nat (rfind p CHR ''.''))")
    case None
    with True show ?thesis by (simp add: splitext_def Let_def)
  next
    case (Some r)
    from skip_leading_dots_result [OF Some] Some True show ?thesis
      by (auto simp: splitext_def Let_def)
  qed
qed

lemma splitext_fst_ascii: "list_all is_ascii p \<Longrightarrow> list_all is_ascii (fst (splitext p))"
proof -
  assume a: "list_all is_ascii p"
  from splitext_fst [of p] show ?thesis
  proof
    assume "fst (splitext p) = p" with a show ?thesis by simp
  next
    assume "\<exists>n. fst (splitext p) = take n p"
    then obtain n where "fst (splitext p) = take n p" ..
    with a show ?thesis by (auto simp: list_all_iff dest: in_set_takeD)
  qed
qed

lemma amsterdam_lower_idem:
  "\<forall>s. lower amsterdam_library (lower amsterdam_library s) = lower amsterdam_library s"
proof
  fix s
  show "lower amsterdam_library (lower amsterdam_library s) = lower amsterdam_library s"
  proof (cases "list_all is_ascii s")
    case True
    then have "list_all is_ascii (map lower_char s)"
      by (auto simp: list_all_iff lower_char_ascii)
    with True show ?thesis by (simp add: lower_def lower_char_idem)
  next
    case False
    have u: "unicode_lower amsterdam_library =
        (\<lambda>s. if s = capital_e_acute then small_e_acute else s)"
      by (simp add: amsterdam_library_def table_library_def known_cases_def fun_eq_iff)
    have small: "\<not> list_all is_ascii small_e_acute" "small_e_acute \<noteq> capital_e_acute"
      by code_simp+
    from False small show ?thesis
      by (simp add: lower_def u)
  qed
qed

lemma recognized_iff: "recognized lib e \<longleftrightarrow> equal_ignoring_case lib (snd (splitext e)) ''.csv''"
proof -
  have "lower lib ''.csv'' = ''.csv''" by code_simp
  then show ?thesis by (simp add: recognized_def equal_ignoring_case_def)
qed

lemma process_rows_success_rows:
  "process_rows lib d known_dates rows fin = Inr known_dates' \<Longrightarrow> row \<in> set rows \<Longrightarrow>
   \<exists>k1 k2. process_row lib d k1 row = Inr k2"
  by (induction rows arbitrary: known_dates) (auto split: sum.splits)

lemma gather_entries_success_entries:
  "gather_entries ctx lib directory known_dates entries = Inr known_dates' \<Longrightarrow>
   entry \<in> set entries \<Longrightarrow>
   \<exists>k1 k2. process_entry ctx lib directory k1 entry = Inr k2"
  by (induction entries arbitrary: known_dates) (auto split: sum.splits)

lemma process_row_success_parsed:
  assumes "process_row lib d known_dates row = Inr known_dates'"
    and "row_get row ''series'' = Some s" "s \<noteq> []"
    and "py_or (row_get row ''eol-server'') (row_get row ''eol'') = Some x" "x \<noteq> []"
  shows "\<exists>date. parse_date lib x = Inr date"
  using assms(1) unfolding process_row_store [OF assms(2-5)]
  by (auto simp: eol_timestamp_def split: sum.splits)

subsection \<open>Running the function on concrete directories\<close>

lemmas run_simps =
  gather_eol_dates_def dir_context_def join_examples process_entry_unrecognized
  lower_examples e_acute_distinct
  recognized_examples process_entry_recognized distributor_of_examples decode_ascii_examples
  amsterdam_DictReader process_row_def row_get_def py_or_def amsterdam_eol_timestamp
  store_def py_int_def

lemma gather_eol_dates_listing:
  assumes "is_directory ctx directory = Inr True"
    and "list_entries ctx directory = Inr entries"
  shows "gather_eol_dates ctx lib directory = gather_entries ctx lib directory Map.empty entries"
  using assms by (simp add: gather_eol_dates_def)

section \<open>The claims\<close>

subsection \<open>C1: one file debian.csv with the record of squeeze\<close>

text \<open>
  C1. Let the context report \<open>directory\<close> as a directory whose only recognized entry is
  \<^verbatim>\<open>debian.csv\<close> (other entries, none of them recognized, may stand beside it), and let
  the file's contents decode to a text for which the reader yields exactly one record,
  with the columns \<^verbatim>\<open>series\<close> and \<^verbatim>\<open>eol\<close> holding \<^verbatim>\<open>squeeze\<close> and
  \<^verbatim>\<open>2014-05-31\<close>. The date parser returns midnight of that day for the date string.
  Then \<^verbatim>\<open>gather_eol_dates\<close> returns the table that maps \<^verbatim>\<open>debian\<close> to the
  mapping of \<^verbatim>\<open>squeeze\<close> to the integer time stamp of 2014-05-31 00:00:00 in the
  local time zone, and nothing else.
\<close>

theorem gather_eol_dates_debian_squeeze:
  assumes "is_directory ctx directory = Inr True"
    and "list_entries ctx directory = Inr entries"
    and "filter (recognized lib) entries = [''debian.csv'']"
    and "read_file ctx (join directory ''debian.csv'') = Inr contents"
    and "decode_ascii contents = Inr text"
    and "DictReader lib text =
           ([[''series'' \<mapsto> Some ''squeeze'', ''eol'' \<mapsto> Some ''2014-05-31'']], None)"
    and "parse_date lib ''2014-05-31'' = Inr [2014, 5, 31, 0, 0, 0]"
    and "mktime lib [2014, 5, 31, 0, 0, 0, -1, -1, -1] = Inr t"
  shows "gather_eol_dates ctx lib directory = Inr [''debian'' \<mapsto> [''squeeze'' \<mapsto> py_int t]]"
proof -
  let ?row = "[''series'' \<mapsto> Some ''squeeze'', ''eol'' \<mapsto> Some ''2014-05-31'']"
  have series: "row_get ?row ''series'' = Some ''squeeze''"
    and eol: "py_or (row_get ?row ''eol-server'') (row_get ?row ''eol'') = Some ''2014-05-31''"
    by (simp_all add: row_get_def py_or_def)
  have stamp: "eol_timestamp lib ''2014-05-31'' = Inr t"
    using assms(7,8) by (simp add: eol_timestamp_def)
  have row: "process_row lib ''debian'' [''debian'' \<mapsto> Map.empty] ?row =
      Inr [''debian'' \<mapsto> [''squeeze'' \<mapsto> py_int t]]"
    by (simp add: process_row_store [OF series _ eol] stamp store_def)
  have "process_entry ctx lib directory Map.empty ''debian.csv'' =
      Inr [''debian'' \<mapsto> [''squeeze'' \<mapsto> py_int t]]"
    using assms(4,5,6) row
    by (simp add: process_entry_recognized [OF recognized_examples(1)]
          distributor_of_examples(1))
  then have "gather_entries ctx lib directory Map.empty (filter (recognized lib) entries) =
      Inr [''debian'' \<mapsto> [''squeeze'' \<mapsto> py_int t]]"
    by (simp add: assms(3))
  then show ?thesis
    using assms(1,2) gather_entries_filter [of ctx lib directory Map.empty entries]
    by (simp add: gather_eol_dates_def)
qed

text \<open>
  The directory \<^verbatim>\<open>/usr/share/distro-info\<close> with a file \<^verbatim>\<open>README\<close> and the file
  \<^verbatim>\<open>debian.csv\<close>, in the time zone Europe/Amsterdam: the result is the entry of
  squeeze in \<^verbatim>\<open>KNOWN_EOL_DATES\<close>.
\<close>

theorem gather_eol_dates_debian_squeeze_witness:
  "gather_eol_dates
     (dir_context ''/usr/share/distro-info''
        [(''README'', ''distro-info''),
         (''debian.csv'', csv_text [''series,eol'', ''squeeze,2014-05-31''])])
     amsterdam_library ''/usr/share/distro-info''
   = Inr [''debian'' \<mapsto> [''squeeze'' \<mapsto> 1401487200]]"
proof -
  let ?text = "csv_text [''series,eol'', ''squeeze,2014-05-31'']"
  let ?ctx = "dir_context ''/usr/share/distro-info''
        [(''README'', ''distro-info''), (''debian.csv'', ?text)]"
  have 1: "is_directory ?ctx ''/usr/share/distro-info'' = Inr True"
    and 2: "list_entries ?ctx ''/usr/share/distro-info'' = Inr [''README'', ''debian.csv'']"
    and 4: "read_file ?ctx (join ''/usr/share/distro-info'' ''debian.csv'') = Inr ?text"
    by (simp_all add: dir_context_def join_examples)
  have 3: "filter (recognized amsterdam_library) [''README'', ''debian.csv''] = [''debian.csv'']"
    by (simp add: recognized_examples)
  show ?thesis
    using gather_eol_dates_debian_squeeze [OF 1 2 3 4 decode_ascii_examples(1)
        amsterdam_DictReader(1) amsterdam_eol_timestamp(1) amsterdam_eol_timestamp(5)]
    by (simp add: py_int_def)
qed

subsection \<open>C2: the time of day of a stored time stamp\<close>

text \<open>
  C2, as the claim states it: whatever time of day the date string of a record holds, the
  stored time stamp is that of midnight of the parsed day. This fails. Line 142 appends
  \<^verbatim>\<open>(-1, -1, -1)\<close> to the tuple of the parser; these are the week day, the day of the
  year and the daylight saving flag of \<^verbatim>\<open>time.mktime\<close>, and the hour, minute and second
  of the parser stay as they are. For the record of squeeze with the end of life
  \<^verbatim>\<open>2014-05-31 12:30:45\<close> the parser returns 12:30:45, and the stored value is the time
  stamp of that moment (1401532245 in Europe/Amsterdam), not that of midnight
  (1401487200).
\<close>

theorem midnight_counterexample:
  "gather_eol_dates
     (dir_context ''/usr/share/distro-info''
        [(''debian.csv'', csv_text [''series,eol'', ''squeeze,2014-05-31 12:30:45''])])
     amsterdam_library ''/usr/share/distro-info''
     = Inr [''debian'' \<mapsto> [''squeeze'' \<mapsto> 1401532245]] \<and>
   parse_date amsterdam_library ''2014-05-31 12:30:45'' = Inr [2014, 5, 31, 12, 30, 45] \<and>
   mktime amsterdam_library [2014, 5, 31, 0, 0, 0, -1, -1, -1] = Inr 1401487200 \<and>
   py_int 1401487200 \<noteq> 1401532245"
  by (simp add: run_simps)

text \<open>
  C2, amended. Every value stored in the returned table is the integer part of
  \<^verbatim>\<open>time.mktime\<close> applied to the tuple that the date parser returns for the end-of-life
  field of a record of a recognized file of that distributor, extended by
  \<^verbatim>\<open>(-1, -1, -1)\<close>: the hour, minute and second of the parser are passed on unchanged.
  The time stamp is that of midnight of the parsed day whenever the parser returns hour,
  minute and second zero, as it does for a string that holds a date only.
\<close>

theorem stored_value_is_parsed_timestamp:
  assumes "gather_eol_dates ctx lib directory = Inr known_dates"
    and "known_dates d = Some releases"
    and "releases series = Some v"
  shows "\<exists>entries entry row x date t.
           list_entries ctx directory = Inr entries \<and> entry \<in> set entries \<and>
           recognized lib entry \<and> distributor_of lib entry = d \<and>
           row \<in> set (records_of ctx lib directory entry) \<and>
           row_get row ''series'' = Some series \<and>
           py_or (row_get row ''eol-server'') (row_get row ''eol'') = Some x \<and>
           parse_date lib x = Inr date \<and>
           mktime lib (date @ [-1, -1, -1]) = Inr t \<and>
           v = py_int t \<and>
           (drop 3 date = [0, 0, 0] \<longrightarrow>
              mktime lib (take 3 date @ [0, 0, 0, -1, -1, -1]) = Inr t)"
proof -
  from assms(1,2) have dir: "is_directory ctx directory = Inr True"
    by (auto simp: gather_eol_dates_def split: sum.splits bool.splits)
  with assms(1) obtain entries where l: "list_entries ctx directory = Inr entries"
      and g: "gather_entries ctx lib directory Map.empty entries = Inr known_dates"
    by (auto simp: gather_eol_dates_def split: sum.splits)
  from gather_entries_provenance [OF g assms(2,3)]
  obtain entry row where e: "entry \<in> set entries" "recognized lib entry" "distributor_of lib entry = d"
      and r: "row \<in> set (records_of ctx lib directory entry)" "record_gives lib row series v"
    by auto
  from r(2) obtain x t where s: "row_get row ''series'' = Some series"
      and x: "py_or (row_get row ''eol-server'') (row_get row ''eol'') = Some x"
      and t: "eol_timestamp lib x = Inr t" "v = py_int t"
    by (auto simp: record_gives_def)
  from t(1) obtain date where p: "parse_date lib x = Inr date"
      and m: "mktime lib (date @ [-1, -1, -1]) = Inr t"
    by (auto simp: eol_timestamp_def split: sum.splits)
  have "mktime lib (take 3 date @ [0, 0, 0, -1, -1, -1]) = Inr t" if "drop 3 date = [0, 0, 0]"
  proof -
    have "date = take 3 date @ drop 3 date" by simp
    with that have "date @ [-1, -1, -1] = take 3 date @ [0, 0, 0, -1, -1, -1]"
      by (metis append_Cons append_Nil append_assoc)
    with m show ?thesis by simp
  qed
  with l e r(1) s x p m t(2) show ?thesis by blast
qed

text \<open>
  The stored value 1401532245 of the directory above comes from the record whose end of
  life is \<^verbatim>\<open>2014-05-31 12:30:45\<close>.
\<close>

theorem stored_value_is_parsed_timestamp_witness:
  "\<exists>entries entry row x date t.
     list_entries (dir_context ''/usr/share/distro-info''
        [(''debian.csv'', csv_text [''series,eol'', ''squeeze,2014-05-31 12:30:45''])])
        ''/usr/share/distro-info'' = Inr entries \<and> entry \<in> set entries \<and>
     recognized amsterdam_library entry \<and> distributor_of amsterdam_library entry = ''debian'' \<and>
     row \<in> set (records_of (dir_context ''/usr/share/distro-info''
        [(''debian.csv'', csv_text [''series,eol'', ''squeeze,2014-05-31 12:30:45''])])
        amsterdam_library ''/usr/share/distro-info'' entry) \<and>
     row_get row ''series'' = Some ''squeeze'' \<and>
     py_or (row_get row ''eol-server'') (row_get row ''eol'') = Some x \<and>
     parse_date amsterdam_library x = Inr date \<and>
     mktime amsterdam_library (date @ [-1, -1, -1]) = Inr t \<and>
     1401532245 = py_int t \<and>
     (drop 3 date = [0, 0, 0] \<longrightarrow>
        mktime amsterdam_library (take 3 date @ [0, 0, 0, -1, -1, -1]) = Inr t)"
proof -
  let ?dir = "''/usr/share/distro-info''"
  let ?ctx = "dir_context ?dir
        [(''debian.csv'', csv_text [''series,eol'', ''squeeze,2014-05-31 12:30:45''])]"
  have 1: "gather_eol_dates ?ctx amsterdam_library ?dir =
      Inr [''debian'' \<mapsto> [''squeeze'' \<mapsto> 1401532245]]"
    by (simp add: run_simps)
  have 2: "[''debian'' \<mapsto> [''squeeze'' \<mapsto> (1401532245::int)]] ''debian'' =
      Some [''squeeze'' \<mapsto> 1401532245]"
    and 3: "[''squeeze'' \<mapsto> (1401532245::int)] ''squeeze'' = Some 1401532245"
    by simp_all
  show ?thesis
    by (rule stored_value_is_parsed_timestamp [OF 1 2 3])
qed

subsection \<open>C3: no directory, or no recognized file\<close>

text \<open>
  C3. When the context reports that \<open>directory\<close> is not a directory,
  \<^verbatim>\<open>gather_eol_dates\<close> returns the empty table and raises nothing. When it is a
  directory none of whose entries has the recognized extension, the result is the empty
  table as well. And a distributor is a key of the returned table only if the directory
  lists a recognized file for it.
\<close>

theorem empty_table_without_recognized_files:
  "(is_directory ctx directory = Inr False \<longrightarrow>
      gather_eol_dates ctx lib directory = Inr Map.empty) \<and>
   (is_directory ctx directory = Inr True \<and> list_entries ctx directory = Inr entries \<and>
    (\<forall>e \<in> set entries. \<not> recognized lib e) \<longrightarrow>
      gather_eol_dates ctx lib directory = Inr Map.empty) \<and>
   (gather_eol_dates ctx lib directory = Inr known_dates \<and> known_dates d = Some releases \<longrightarrow>
      is_directory ctx directory = Inr True \<and>
      (\<exists>entries. list_entries ctx directory = Inr entries \<and>
         (\<exists>e \<in> set entries. recognized lib e \<and> distributor_of lib e = d)))"
proof (intro conjI impI)
  assume "is_directory ctx directory = Inr False"
  then show "gather_eol_dates ctx lib directory = Inr Map.empty"
    by (simp add: gather_eol_dates_def)
next
  assume a: "is_directory ctx directory = Inr True \<and> list_entries ctx directory = Inr entries \<and>
    (\<forall>e \<in> set entries. \<not> recognized lib e)"
  then have "filter (recognized lib) entries = []" by simp
  with gather_entries_filter [of ctx lib directory Map.empty entries]
  have "gather_entries ctx lib directory Map.empty entries = Inr Map.empty" by simp
  with a show "gather_eol_dates ctx lib directory = Inr Map.empty"
    by (simp add: gather_eol_dates_def)
next
  assume a: "gather_eol_dates ctx lib directory = Inr known_dates \<and> known_dates d = Some releases"
  then show "is_directory ctx directory = Inr True"
    by (auto simp: gather_eol_dates_def split: sum.splits bool.splits)
  with a obtain entries where e: "list_entries ctx directory = Inr entries"
      and g: "gather_entries ctx lib directory Map.empty entries = Inr known_dates"
    by (auto simp: gather_eol_dates_def split: sum.splits)
  from gather_entries_dom [OF g] a have "d \<in> distributor_of lib ` {e \<in> set entries. recognized lib e}"
    by auto
  with e show "\<exists>entries. list_entries ctx directory = Inr entries \<and>
         (\<exists>e \<in> set entries. recognized lib e \<and> distributor_of lib e = d)"
    by auto
qed

text \<open>
  A path that is no directory; a directory holding only \<^verbatim>\<open>README\<close>; and a directory
  whose table has the key \<^verbatim>\<open>debian\<close>, for which it lists \<^verbatim>\<open>debian.csv\<close>.
\<close>

theorem empty_table_without_recognized_files_witness:
  "gather_eol_dates (dir_context ''/usr/share/distro-info'' []) amsterdam_library ''/nowhere''
     = Inr Map.empty \<and>
   gather_eol_dates (dir_context ''/usr/share/distro-info'' [(''README'', ''distro-info'')])
     amsterdam_library ''/usr/share/distro-info'' = Inr Map.empty \<and>
   gather_eol_dates
     (dir_context ''/usr/share/distro-info''
        [(''README'', ''distro-info''),
         (''debian.csv'', csv_text [''series,eol'', ''squeeze,2014-05-31''])])
     amsterdam_library ''/usr/share/distro-info''
     = Inr [''debian'' \<mapsto> [''squeeze'' \<mapsto> 1401487200]] \<and>
   is_directory
     (dir_context ''/usr/share/distro-info''
        [(''README'', ''distro-info''),
         (''debian.csv'', csv_text [''series,eol'', ''squeeze,2014-05-31''])])
     ''/usr/share/distro-info'' = Inr True \<and>
   recognized amsterdam_library ''debian.csv'' \<and> distributor_of amsterdam_library ''debian.csv'' = ''debian''"
proof -
  let ?lib = amsterdam_library
  let ?dir = "''/usr/share/distro-info''"
  let ?c1 = "dir_context ?dir []"
  let ?c2 = "dir_context ?dir [(''README'', ''distro-info'')]"
  let ?c3 = "dir_context ?dir
        [(''README'', ''distro-info''),
         (''debian.csv'', csv_text [''series,eol'', ''squeeze,2014-05-31''])]"
  have 1: "is_directory ?c1 ''/nowhere'' = Inr False"
    by (simp add: dir_context_def)
  have 2: "is_directory ?c2 ?dir = Inr True \<and> list_entries ?c2 ?dir = Inr [''README''] \<and>
      (\<forall>e \<in> set [''README'']. \<not> recognized amsterdam_library e)"
    by (simp add: dir_context_def recognized_examples)
  have 3: "gather_eol_dates ?c3 ?lib ?dir = Inr [''debian'' \<mapsto> [''squeeze'' \<mapsto> 1401487200]]"
    by (simp add: gather_eol_dates_def dir_context_def join_examples
          process_entry_unrecognized recognized_examples process_entry_recognized
          distributor_of_examples decode_ascii_examples amsterdam_DictReader
          process_row_def row_get_def py_or_def amsterdam_eol_timestamp store_def py_int_def)
  have 4: "[''debian'' \<mapsto> [''squeeze'' \<mapsto> (1401487200::int)]] ''debian'' =
      Some [''squeeze'' \<mapsto> 1401487200]"
    by simp
  from empty_table_without_recognized_files [of ?c1 "''/nowhere''" ?lib "[]" Map.empty "[]" Map.empty] 1
  have a: "gather_eol_dates ?c1 ?lib ''/nowhere'' = Inr Map.empty" by blast
  from empty_table_without_recognized_files [of ?c2 ?dir ?lib "[''README'']" Map.empty "[]" Map.empty] 2
  have b: "gather_eol_dates ?c2 ?lib ?dir = Inr Map.empty" by blast
  from empty_table_without_recognized_files
    [of ?c3 ?dir ?lib "[]" "[''debian'' \<mapsto> [''squeeze'' \<mapsto> 1401487200]]" "''debian''"
        "[''squeeze'' \<mapsto> 1401487200]"] 3 4
  have c: "is_directory ?c3 ?dir = Inr True" by blast
  from a b c 3 show ?thesis
    by (simp add: recognized_examples distributor_of_examples)
qed

subsection \<open>C4: the end of life for servers comes first\<close>

text \<open>
  C4, as the claim states it: when a row has both the column \<^verbatim>\<open>eol\<close> and the column
  \<^verbatim>\<open>eol-server\<close>, the stored value is derived from \<^verbatim>\<open>eol-server\<close>. This fails when
  the field \<^verbatim>\<open>eol-server\<close> is present but empty: line 140 reads
  \<^verbatim>\<open>row.get('eol-server') or row.get('eol')\<close>, and an empty string is false. For the
  row \<^verbatim>\<open>warty,2006-04-30,\<close> under the header \<^verbatim>\<open>series,eol,eol-server\<close> both columns
  are present, and the stored value is the time stamp of the field \<^verbatim>\<open>eol\<close>; the empty
  field \<^verbatim>\<open>eol-server\<close> is no date at all.
\<close>

theorem eol_server_counterexample:
  "gather_eol_dates
     (dir_context ''/usr/share/distro-info''
        [(''ubuntu.csv'', csv_text [''series,eol,eol-server'', ''warty,2006-04-30,''])])
     amsterdam_library ''/usr/share/distro-info''
     = Inr [''ubuntu'' \<mapsto> [''warty'' \<mapsto> 1146348000]] \<and>
   records_of
     (dir_context ''/usr/share/distro-info''
        [(''ubuntu.csv'', csv_text [''series,eol,eol-server'', ''warty,2006-04-30,''])])
     amsterdam_library ''/usr/share/distro-info'' ''ubuntu.csv''
     = [[''series'' \<mapsto> Some ''warty'', ''eol'' \<mapsto> Some ''2006-04-30'',
         ''eol-server'' \<mapsto> Some []]] \<and>
   [''series'' \<mapsto> Some ''warty'', ''eol'' \<mapsto> Some ''2006-04-30'',
    ''eol-server'' \<mapsto> Some []] ''eol'' = Some (Some ''2006-04-30'') \<and>
   [''series'' \<mapsto> Some ''warty'', ''eol'' \<mapsto> Some ''2006-04-30'',
    ''eol-server'' \<mapsto> Some []] ''eol-server'' = Some (Some []) \<and>
   eol_timestamp amsterdam_library ''2006-04-30'' = Inr 1146348000 \<and>
   py_int 1146348000 = 1146348000 \<and>
   eol_timestamp amsterdam_library [] = Inl (InvalidDate [])"
  by (simp add: run_simps records_of_def)

text \<open>
  C4, amended. For every record with a series that is not empty: when its field
  \<^verbatim>\<open>eol-server\<close> is present and not empty, the value stored for the series is derived
  from that field, whatever the field \<^verbatim>\<open>eol\<close> holds; when \<^verbatim>\<open>eol-server\<close> is missing or
  empty, the value is derived from the field \<^verbatim>\<open>eol\<close>. (A time stamp that cannot be
  computed raises the exception of the collaborator.)
\<close>

theorem eol_server_precedence:
  assumes "row_get row ''series'' = Some series" and "series \<noteq> []"
    and "known_dates distributor_id = Some releases"
  shows "(\<forall>x. row_get row ''eol-server'' = Some x \<and> x \<noteq> [] \<longrightarrow>
            process_row lib distributor_id known_dates row =
              (case eol_timestamp lib x of
                 Inl e \<Rightarrow> Inl e
               | Inr t \<Rightarrow> Inr (known_dates(distributor_id \<mapsto> releases(series \<mapsto> py_int t))))) \<and>
         (\<forall>x. missing_or_empty row ''eol-server'' \<and> row_get row ''eol'' = Some x \<and> x \<noteq> [] \<longrightarrow>
            process_row lib distributor_id known_dates row =
              (case eol_timestamp lib x of
                 Inl e \<Rightarrow> Inl e
               | Inr t \<Rightarrow> Inr (known_dates(distributor_id \<mapsto> releases(series \<mapsto> py_int t)))))"
proof (intro conjI allI impI)
  fix x
  assume "row_get row ''eol-server'' = Some x \<and> x \<noteq> []"
  then have "py_or (row_get row ''eol-server'') (row_get row ''eol'') = Some x" "x \<noteq> []"
    by (simp_all add: py_or_def)
  from process_row_store [OF assms(1,2) this, of lib distributor_id known_dates] assms(3)
  show "process_row lib distributor_id known_dates row =
      (case eol_timestamp lib x of
         Inl e \<Rightarrow> Inl e
       | Inr t \<Rightarrow> Inr (known_dates(distributor_id \<mapsto> releases(series \<mapsto> py_int t))))"
    by (simp add: store_def split: sum.splits)
next
  fix x
  assume a: "missing_or_empty row ''eol-server'' \<and> row_get row ''eol'' = Some x \<and> x \<noteq> []"
  then have "\<not> truthy (row_get row ''eol-server'')"
    by (auto simp: missing_or_empty_def row_get_def)
  with a have "py_or (row_get row ''eol-server'') (row_get row ''eol'') = Some x" "x \<noteq> []"
    by (simp_all add: py_or_def)
  from process_row_store [OF assms(1,2) this, of lib distributor_id known_dates] assms(3)
  show "process_row lib distributor_id known_dates row =
      (case eol_timestamp lib x of
         Inl e \<Rightarrow> Inl e
       | Inr t \<Rightarrow> Inr (known_dates(distributor_id \<mapsto> releases(series \<mapsto> py_int t))))"
    by (simp add: store_def split: sum.splits)
qed

text \<open>
  The record of dapper, with two different dates, stores the one for servers; the record
  of warty, with an empty date for servers, stores the other.
\<close>

theorem eol_server_precedence_witness:
  "process_row amsterdam_library ''ubuntu'' [''ubuntu'' \<mapsto> Map.empty]
     [''series'' \<mapsto> Some ''dapper'', ''eol'' \<mapsto> Some ''2009-07-14'',
      ''eol-server'' \<mapsto> Some ''2011-06-01'']
     = Inr [''ubuntu'' \<mapsto> [''dapper'' \<mapsto> 1306879200]] \<and>
   process_row amsterdam_library ''ubuntu'' [''ubuntu'' \<mapsto> Map.empty]
     [''series'' \<mapsto> Some ''warty'', ''eol'' \<mapsto> Some ''2006-04-30'',
      ''eol-server'' \<mapsto> Some []]
     = Inr [''ubuntu'' \<mapsto> [''warty'' \<mapsto> 1146348000]] \<and>
   eol_timestamp amsterdam_library ''2011-06-01'' = Inr 1306879200 \<and>
   eol_timestamp amsterdam_library ''2009-07-14'' = Inr 1247522400"
proof -
  let ?dapper = "[''series'' \<mapsto> Some ''dapper'', ''eol'' \<mapsto> Some ''2009-07-14'',
      ''eol-server'' \<mapsto> Some ''2011-06-01''] :: csv_row"
  let ?warty = "[''series'' \<mapsto> Some ''warty'', ''eol'' \<mapsto> Some ''2006-04-30'',
      ''eol-server'' \<mapsto> Some []] :: csv_row"
  let ?table = "[''ubuntu'' \<mapsto> Map.empty] :: eol_table"
  have t: "?table ''ubuntu'' = Some Map.empty" by simp
  have d: "row_get ?dapper ''series'' = Some ''dapper''" "''dapper'' \<noteq> []"
      "row_get ?dapper ''eol-server'' = Some ''2011-06-01'' \<and> ''2011-06-01'' \<noteq> []"
    by (simp_all add: row_get_def)
  have w: "row_get ?warty ''series'' = Some ''warty''" "''warty'' \<noteq> []"
      "missing_or_empty ?warty ''eol-server'' \<and> row_get ?warty ''eol'' = Some ''2006-04-30'' \<and>
       ''2006-04-30'' \<noteq> []"
    by (simp_all add: row_get_def missing_or_empty_def)
  from eol_server_precedence [where row = ?dapper and series = "''dapper''" and known_dates = ?table
      and distributor_id = "''ubuntu''" and releases = Map.empty and lib = amsterdam_library] d t
  have 1: "process_row amsterdam_library ''ubuntu'' ?table ?dapper =
      Inr [''ubuntu'' \<mapsto> [''dapper'' \<mapsto> 1306879200]]"
    by (simp add: amsterdam_eol_timestamp py_int_def)
  from eol_server_precedence [where row = ?warty and series = "''warty''" and known_dates = ?table
      and distributor_id = "''ubuntu''" and releases = Map.empty and lib = amsterdam_library] w t
  have 2: "process_row amsterdam_library ''ubuntu'' ?table ?warty =
      Inr [''ubuntu'' \<mapsto> [''warty'' \<mapsto> 1146348000]]"
    by (simp add: amsterdam_eol_timestamp py_int_def)
  from 1 2 show ?thesis by (simp add: amsterdam_eol_timestamp)
qed

subsection \<open>C5: records without a series or without an end of life\<close>

text \<open>
  C5, as the claim states it: a record is skipped when its \<^verbatim>\<open>series\<close> field is missing,
  or when both its \<^verbatim>\<open>eol-server\<close> field and its \<^verbatim>\<open>eol\<close> field are missing, or when any
  of these fields is present only as an empty value. This fails for a record whose
  \<^verbatim>\<open>eol-server\<close> field is empty and whose \<^verbatim>\<open>eol\<close> field holds a date: line 140 reads
  \<^verbatim>\<open>row.get('eol-server') or row.get('eol')\<close>, the empty string is false, and the record
  is stored with the date of \<^verbatim>\<open>eol\<close>. The row \<^verbatim>\<open>warty,2006-04-30,\<close> under the header
  \<^verbatim>\<open>series,eol,eol-server\<close> has an empty \<^verbatim>\<open>eol-server\<close>, and warty is added to the
  result.
\<close>

theorem empty_eol_server_stored_counterexample:
  "missing_or_empty
     [''series'' \<mapsto> Some ''warty'', ''eol'' \<mapsto> Some ''2006-04-30'', ''eol-server'' \<mapsto> Some []]
     ''eol-server'' \<and>
   process_row amsterdam_library ''ubuntu'' [''ubuntu'' \<mapsto> Map.empty]
     [''series'' \<mapsto> Some ''warty'', ''eol'' \<mapsto> Some ''2006-04-30'', ''eol-server'' \<mapsto> Some []]
     = Inr [''ubuntu'' \<mapsto> [''warty'' \<mapsto> 1146348000]] \<and>
   [''warty'' \<mapsto> (1146348000::int)] \<noteq> Map.empty \<and>
   gather_eol_dates
     (dir_context ''/usr/share/distro-info''
        [(''ubuntu.csv'', csv_text [''series,eol,eol-server'', ''warty,2006-04-30,''])])
     amsterdam_library ''/usr/share/distro-info''
     = Inr [''ubuntu'' \<mapsto> [''warty'' \<mapsto> 1146348000]]"
  by (simp add: run_simps missing_or_empty_def)

text \<open>
  C5, amended. A record is skipped when its \<^verbatim>\<open>series\<close> field is missing or empty, or
  when its \<^verbatim>\<open>eol-server\<close> field and its \<^verbatim>\<open>eol\<close> field are each missing or empty.
  Processing such a record returns the table unchanged and raises nothing, so the loop
  over the records of a file gives the same result with the record as without it.
\<close>

theorem skipped_record:
  assumes "missing_or_empty row ''series'' \<or>
           (missing_or_empty row ''eol-server'' \<and> missing_or_empty row ''eol'')"
  shows "process_row lib distributor_id known_dates row = Inr known_dates \<and>
         process_rows lib distributor_id known_dates (before @ row # after) fin =
           process_rows lib distributor_id known_dates (before @ after) fin"
proof -
  have "\<not> (truthy (row_get row ''series'') \<and>
       truthy (py_or (row_get row ''eol-server'') (row_get row ''eol'')))"
    using assms by (auto simp: missing_or_empty_def row_get_def py_or_def)
  then have skip: "process_row lib distributor_id k row = Inr k" for k
    by (rule process_row_skip)
  then show ?thesis
    by (simp add: process_rows_append [of _ _ _ before] split: sum.splits)
qed

text \<open>
  The record of sid, which has no end of life; a record whose series is empty; and the
  records of squeeze and sid together, which give the entry of squeeze alone.
\<close>

theorem skipped_record_witness:
  "process_row amsterdam_library ''debian'' [''debian'' \<mapsto> Map.empty]
     [''series'' \<mapsto> Some ''sid'', ''eol'' \<mapsto> None] = Inr [''debian'' \<mapsto> Map.empty] \<and>
   process_row amsterdam_library ''debian'' [''debian'' \<mapsto> Map.empty]
     [''series'' \<mapsto> Some [], ''eol'' \<mapsto> Some ''2014-05-31''] = Inr [''debian'' \<mapsto> Map.empty] \<and>
   process_rows amsterdam_library ''debian'' [''debian'' \<mapsto> Map.empty]
     ([[''series'' \<mapsto> Some ''squeeze'', ''eol'' \<mapsto> Some ''2014-05-31'']] @
      [''series'' \<mapsto> Some ''sid'', ''eol'' \<mapsto> None] # []) None
     = Inr [''debian'' \<mapsto> [''squeeze'' \<mapsto> 1401487200]]"
proof -
  let ?sid = "[''series'' \<mapsto> Some ''sid'', ''eol'' \<mapsto> None] :: csv_row"
  let ?anon = "[''series'' \<mapsto> Some [], ''eol'' \<mapsto> Some ''2014-05-31''] :: csv_row"
  have 1: "missing_or_empty ?sid ''series'' \<or>
           (missing_or_empty ?sid ''eol-server'' \<and> missing_or_empty ?sid ''eol'')"
    by (simp add: missing_or_empty_def)
  have 2: "missing_or_empty ?anon ''series'' \<or>
           (missing_or_empty ?anon ''eol-server'' \<and> missing_or_empty ?anon ''eol'')"
    by (simp add: missing_or_empty_def)
  have 3: "process_rows amsterdam_library ''debian'' [''debian'' \<mapsto> Map.empty]
     ([[''series'' \<mapsto> Some ''squeeze'', ''eol'' \<mapsto> Some ''2014-05-31'']] @ []) None
     = Inr [''debian'' \<mapsto> [''squeeze'' \<mapsto> 1401487200]]"
    by (simp add: process_row_def row_get_def py_or_def amsterdam_eol_timestamp store_def
          py_int_def)
  from skipped_record [OF 1, of amsterdam_library "''debian''" "[''debian'' \<mapsto> Map.empty]"
      "[[''series'' \<mapsto> Some ''squeeze'', ''eol'' \<mapsto> Some ''2014-05-31'']]" "[]" None]
    skipped_record [OF 2, of amsterdam_library "''debian''" "[''debian'' \<mapsto> Map.empty]" "[]" "[]" None]
    3
  show ?thesis by simp
qed

subsection \<open>C6: failures of the collaborators are not caught\<close>

text \<open>
  C6. Let a recognized file of the listing be read. If nothing has failed before and the
  contents of the file are not ASCII, the call raises the decoding error itself. If
  nothing has failed before, in the earlier files or in the earlier records of the file,
  and a record with a series and an end of life, both not empty, has an end of life that
  the date parser rejects, the call raises the exception of the parser itself. And in any
  case a call that meets such a file or such a record anywhere in the listing raises an
  exception: it never returns a table.
\<close>

theorem failures_propagate:
  assumes "is_directory ctx directory = Inr True"
    and "list_entries ctx directory = Inr (before @ entry # after)"
    and "recognized lib entry"
    and "read_file ctx (join directory entry) = Inr contents"
  shows "(gather_entries ctx lib directory Map.empty before = Inr table \<and>
          decode_ascii contents = Inl err \<longrightarrow>
            gather_eol_dates ctx lib directory = Inl err) \<and>
         (gather_entries ctx lib directory Map.empty before = Inr table \<and>
          decode_ascii contents = Inr decoded \<and>
          DictReader lib decoded = (rows_before @ row # rows_after, fin) \<and>
          process_rows lib (distributor_of lib entry) (table(distributor_of lib entry \<mapsto> Map.empty))
            rows_before None = Inr table' \<and>
          row_get row ''series'' = Some series \<and> series \<noteq> [] \<and>
          py_or (row_get row ''eol-server'') (row_get row ''eol'') = Some x \<and> x \<noteq> [] \<and>
          parse_date lib x = Inl err \<longrightarrow>
            gather_eol_dates ctx lib directory = Inl err) \<and>
         ((\<exists>e. decode_ascii contents = Inl e) \<or>
          (\<exists>r \<in> set (records_of ctx lib directory entry). \<exists>s y e.
             row_get r ''series'' = Some s \<and> s \<noteq> [] \<and>
             py_or (row_get r ''eol-server'') (row_get r ''eol'') = Some y \<and> y \<noteq> [] \<and>
             parse_date lib y = Inl e) \<longrightarrow>
            (\<exists>e. gather_eol_dates ctx lib directory = Inl e))"
proof (intro conjI impI)
  assume a: "gather_entries ctx lib directory Map.empty before = Inr table \<and>
          decode_ascii contents = Inl err"
  with assms(3,4) have "process_entry ctx lib directory table entry = Inl err"
    by (simp add: process_entry_recognized)
  with a assms(1,2) show "gather_eol_dates ctx lib directory = Inl err"
    by (simp add: gather_eol_dates_def gather_entries_append)
next
  assume a: "gather_entries ctx lib directory Map.empty before = Inr table \<and>
          decode_ascii contents = Inr decoded \<and>
          DictReader lib decoded = (rows_before @ row # rows_after, fin) \<and>
          process_rows lib (distributor_of lib entry) (table(distributor_of lib entry \<mapsto> Map.empty))
            rows_before None = Inr table' \<and>
          row_get row ''series'' = Some series \<and> series \<noteq> [] \<and>
          py_or (row_get row ''eol-server'') (row_get row ''eol'') = Some x \<and> x \<noteq> [] \<and>
          parse_date lib x = Inl err"
  then have "process_row lib (distributor_of lib entry) table' row = Inl err"
    by (simp add: process_row_store [where s = series and x = x] eol_timestamp_def)
  with a have "process_rows lib (distributor_of lib entry)
      (table(distributor_of lib entry \<mapsto> Map.empty)) (rows_before @ row # rows_after) fin = Inl err"
    by (simp add: process_rows_append)
  with a assms(3,4) have "process_entry ctx lib directory table entry = Inl err"
    by (simp add: process_entry_recognized)
  with a assms(1,2) show "gather_eol_dates ctx lib directory = Inl err"
    by (simp add: gather_eol_dates_def gather_entries_append)
next
  assume a: "(\<exists>e. decode_ascii contents = Inl e) \<or>
          (\<exists>r \<in> set (records_of ctx lib directory entry). \<exists>s y e.
             row_get r ''series'' = Some s \<and> s \<noteq> [] \<and>
             py_or (row_get r ''eol-server'') (row_get r ''eol'') = Some y \<and> y \<noteq> [] \<and>
             parse_date lib y = Inl e)"
  show "\<exists>e. gather_eol_dates ctx lib directory = Inl e"
  proof (rule ccontr)
    assume "\<not> (\<exists>e. gather_eol_dates ctx lib directory = Inl e)"
    then obtain known_dates where "gather_eol_dates ctx lib directory = Inr known_dates"
      by (cases "gather_eol_dates ctx lib directory") auto
    with assms(1,2)
    have "gather_entries ctx lib directory Map.empty (before @ entry # after) = Inr known_dates"
      by (simp add: gather_eol_dates_listing)
    from gather_entries_success_entries [OF this, of entry]
    obtain k1 k2 where e: "process_entry ctx lib directory k1 entry = Inr k2" by auto
    with assms(3,4) obtain decoded where d: "decode_ascii contents = Inr decoded"
      by (auto simp: process_entry_recognized split: sum.splits)
    with a obtain r s y e' where r: "r \<in> set (records_of ctx lib directory entry)"
        and s: "row_get r ''series'' = Some s" "s \<noteq> []"
        and y: "py_or (row_get r ''eol-server'') (row_get r ''eol'') = Some y" "y \<noteq> []"
        and p: "parse_date lib y = Inl e'"
      by auto
    from process_rows_success_rows [OF process_entry_run [OF e assms(3)] r]
    obtain t1 t2 where "process_row lib (distributor_of lib entry) t1 r = Inr t2" by auto
    from process_row_success_parsed [OF this s y] p show False by simp
  qed
qed

text \<open>
  A file that holds the bytes of a non-ASCII letter, and a file whose record of buster
  has the end of life \<^verbatim>\<open>soon\<close>.
\<close>

theorem failures_propagate_witness:
  "gather_eol_dates
     (dir_context ''/usr/share/distro-info'' [(''debian.csv'', [CHR 0x73, CHR 0xC3, CHR 0xA9])])
     amsterdam_library ''/usr/share/distro-info'' = Inl (UnicodeDecodeError 1) \<and>
   decode_ascii [CHR 0x73, CHR 0xC3, CHR 0xA9] = Inl (UnicodeDecodeError 1) \<and>
   gather_eol_dates
     (dir_context ''/usr/share/distro-info''
        [(''debian.csv'', csv_text [''series,eol'', ''buster,soon''])])
     amsterdam_library ''/usr/share/distro-info'' = Inl (InvalidDate ''soon'') \<and>
   parse_date amsterdam_library ''soon'' = Inl (InvalidDate ''soon'')"
proof -
  let ?dir = "''/usr/share/distro-info''"
  let ?bytes = "[CHR 0x73, CHR 0xC3, CHR 0xA9]"
  let ?soon = "csv_text [''series,eol'', ''buster,soon'']"
  let ?row = "[''series'' \<mapsto> Some ''buster'', ''eol'' \<mapsto> Some ''soon''] :: csv_row"
  let ?c1 = "dir_context ?dir [(''debian.csv'', ?bytes)]"
  let ?c2 = "dir_context ?dir [(''debian.csv'', ?soon)]"
  let ?lib = amsterdam_library
  have c1: "is_directory ?c1 ?dir = Inr True"
      "list_entries ?c1 ?dir = Inr ([] @ ''debian.csv'' # [])"
      "read_file ?c1 (join ?dir ''debian.csv'') = Inr ?bytes"
    by (simp_all add: dir_context_def join_examples)
  have c2: "is_directory ?c2 ?dir = Inr True"
      "list_entries ?c2 ?dir = Inr ([] @ ''debian.csv'' # [])"
      "read_file ?c2 (join ?dir ''debian.csv'') = Inr ?soon"
    by (simp_all add: dir_context_def join_examples)
  have h1: "gather_entries ?c1 ?lib ?dir Map.empty [] = Inr Map.empty \<and>
      decode_ascii ?bytes = Inl (UnicodeDecodeError 1)"
    by (simp add: decode_ascii_examples)
  have h2: "gather_entries ?c2 ?lib ?dir Map.empty [] = Inr Map.empty \<and>
      decode_ascii ?soon = Inr ?soon \<and>
      DictReader ?lib ?soon = ([] @ ?row # [], None) \<and>
      process_rows ?lib (distributor_of amsterdam_library ''debian.csv'')
        (Map.empty(distributor_of amsterdam_library ''debian.csv'' \<mapsto> Map.empty)) [] None =
        Inr (Map.empty(distributor_of amsterdam_library ''debian.csv'' \<mapsto> Map.empty)) \<and>
      row_get ?row ''series'' = Some ''buster'' \<and> ''buster'' \<noteq> [] \<and>
      py_or (row_get ?row ''eol-server'') (row_get ?row ''eol'') = Some ''soon'' \<and>
      ''soon'' \<noteq> [] \<and>
      parse_date ?lib ''soon'' = Inl (InvalidDate ''soon'')"
    by (simp add: decode_ascii_examples amsterdam_DictReader row_get_def py_or_def
          amsterdam_eol_timestamp)
  from failures_propagate [OF c1(1,2) recognized_examples(1) c1(3), where lib = ?lib
      and table = Map.empty and err = "UnicodeDecodeError 1"] h1
  have 1: "gather_eol_dates ?c1 ?lib ?dir = Inl (UnicodeDecodeError 1)" by blast
  from failures_propagate [OF c2(1,2) recognized_examples(1) c2(3), where lib = ?lib
      and table = Map.empty and err = "InvalidDate ''soon''" and decoded = ?soon
      and rows_before = "[]" and row = ?row and rows_after = "[]" and fin = None
      and table' = "Map.empty(distributor_of amsterdam_library ''debian.csv'' \<mapsto> Map.empty)"
      and series = "''buster''" and x = "''soon''"] h2
  have 2: "gather_eol_dates ?c2 ?lib ?dir = Inl (InvalidDate ''soon'')" by blast
  from 1 2 show ?thesis by (simp add: decode_ascii_examples amsterdam_eol_timestamp)
qed

subsection \<open>C7: recognized entries and distributor identifiers\<close>

text \<open>
  C7. An entry of the directory is recognized exactly when its extension, compared
  without regard to case, is \<^verbatim>\<open>.csv\<close>, and its data is stored under its base name in
  lower case: the keys of the returned table are the lower-cased base names
  (\<^verbatim>\<open>str.lower\<close>) of the entries whose extension equals \<^verbatim>\<open>.csv\<close> up to case, no more
  and no fewer. Hence every key is in lower case, whatever the case of the file names:
  it is the result of \<^verbatim>\<open>str.lower\<close>; the key of an entry with an ASCII name
  holds no letter from A to Z; and when lower-casing a lower-cased string changes
  nothing, every key is left as it is by \<^verbatim>\<open>str.lower\<close>.
\<close>

theorem distributor_keys_lowercase:
  assumes "is_directory ctx directory = Inr True"
    and "list_entries ctx directory = Inr entries"
    and "gather_eol_dates ctx lib directory = Inr known_dates"
  shows "dom known_dates =
           {lower lib (fst (splitext e)) | e.
              e \<in> set entries \<and> equal_ignoring_case lib (snd (splitext e)) ''.csv''} \<and>
         (\<forall>e \<in> set entries. list_all is_ascii e \<longrightarrow>
            (\<forall>c \<in> set (lower lib (fst (splitext e))). c \<notin> set ''ABCDEFGHIJKLMNOPQRSTUVWXYZ'')) \<and>
         ((\<forall>s. lower lib (lower lib s) = lower lib s) \<longrightarrow>
            (\<forall>d \<in> dom known_dates. lower lib d = d))"
proof -
  from assms have g: "gather_entries ctx lib directory Map.empty entries = Inr known_dates"
    by (simp add: gather_eol_dates_listing)
  from gather_entries_dom [OF g]
  have d: "dom known_dates = distributor_of lib ` {e \<in> set entries. recognized lib e}" by simp
  then have keys: "dom known_dates =
           {lower lib (fst (splitext e)) | e.
              e \<in> set entries \<and> equal_ignoring_case lib (snd (splitext e)) ''.csv''}"
    by (auto simp: recognized_iff distributor_of_def)
  have ascii: "\<forall>c \<in> set (lower lib (fst (splitext e))). c \<notin> set ''ABCDEFGHIJKLMNOPQRSTUVWXYZ''"
    if "list_all is_ascii e" for e
    using that by (intro lower_ascii_no_upper splitext_fst_ascii)
  have "lower lib k = k" if "\<forall>s. lower lib (lower lib s) = lower lib s" "k \<in> dom known_dates" for k
    using that unfolding d distributor_of_def by auto
  with keys ascii show ?thesis by blast
qed

text \<open>
  The file \<^verbatim>\<open>Ubuntu.CSV\<close> is stored as \<^verbatim>\<open>ubuntu\<close>, and a file whose base name is the
  capital letter E with acute accent is stored under the small letter.
\<close>

theorem distributor_keys_lowercase_witness:
  "gather_eol_dates
     (dir_context ''/usr/share/distro-info''
        [(''README'', ''distro-info''),
         (''Ubuntu.CSV'', csv_text [''series,eol,eol-server'', ''dapper,2009-07-14,2011-06-01'']),
         (capital_e_acute @ ''.csv'', csv_text [''series,eol'', ''squeeze,2014-05-31''])])
     amsterdam_library ''/usr/share/distro-info''
     = Inr [''ubuntu'' \<mapsto> [''dapper'' \<mapsto> 1306879200],
            small_e_acute \<mapsto> [''squeeze'' \<mapsto> 1401487200]] \<and>
   splitext ''Ubuntu.CSV'' = (''Ubuntu'', ''.CSV'') \<and>
   lower amsterdam_library ''Ubuntu'' = ''ubuntu'' \<and>
   lower amsterdam_library capital_e_acute = small_e_acute \<and>
   dom [''ubuntu'' \<mapsto> [''dapper'' \<mapsto> (1306879200::int)],
        small_e_acute \<mapsto> [''squeeze'' \<mapsto> 1401487200]] =
     {lower amsterdam_library (fst (splitext e)) | e.
        e \<in> set [''README'', ''Ubuntu.CSV'', capital_e_acute @ ''.csv''] \<and>
        equal_ignoring_case amsterdam_library (snd (splitext e)) ''.csv''} \<and>
   lower amsterdam_library ''ubuntu'' = ''ubuntu'' \<and>
   lower amsterdam_library small_e_acute = small_e_acute \<and>
   CHR ''U'' \<notin> set (lower amsterdam_library (fst (splitext ''Ubuntu.CSV'')))"
proof -
  let ?dir = "''/usr/share/distro-info''"
  let ?ctx = "dir_context ?dir
        [(''README'', ''distro-info''),
         (''Ubuntu.CSV'', csv_text [''series,eol,eol-server'', ''dapper,2009-07-14,2011-06-01'']),
         (capital_e_acute @ ''.csv'', csv_text [''series,eol'', ''squeeze,2014-05-31''])]"
  let ?result = "[''ubuntu'' \<mapsto> [''dapper'' \<mapsto> (1306879200::int)],
        small_e_acute \<mapsto> [''squeeze'' \<mapsto> 1401487200]]"
  have 1: "is_directory ?ctx ?dir = Inr True"
    and 2: "list_entries ?ctx ?dir = Inr [''README'', ''Ubuntu.CSV'', capital_e_acute @ ''.csv'']"
    by (simp_all add: dir_context_def)
  have 3: "gather_eol_dates ?ctx amsterdam_library ?dir = Inr ?result"
    by (simp add: run_simps)
  have 4: "splitext ''Ubuntu.CSV'' = (''Ubuntu'', ''.CSV'')"
      "lower amsterdam_library ''Ubuntu'' = ''ubuntu''"
      "lower amsterdam_library capital_e_acute = small_e_acute"
    by (simp_all add: splitext_examples lower_examples)
  have 5: "list_all is_ascii ''Ubuntu.CSV''" by code_simp
  have 6: "''ubuntu'' \<in> dom ?result" "small_e_acute \<in> dom ?result" by simp_all
  note inst = distributor_keys_lowercase [OF 1 2 3]
  from inst have keys: "dom ?result =
     {lower amsterdam_library (fst (splitext e)) | e.
        e \<in> set [''README'', ''Ubuntu.CSV'', capital_e_acute @ ''.csv''] \<and>
        equal_ignoring_case amsterdam_library (snd (splitext e)) ''.csv''}"
    by blast
  from inst 5 have "\<forall>c \<in> set (lower amsterdam_library (fst (splitext ''Ubuntu.CSV''))).
      c \<notin> set ''ABCDEFGHIJKLMNOPQRSTUVWXYZ''"
    by simp
  then have upper: "CHR ''U'' \<notin> set (lower amsterdam_library (fst (splitext ''Ubuntu.CSV'')))"
    by auto
  from inst amsterdam_lower_idem 6
  have fixed: "lower amsterdam_library ''ubuntu'' = ''ubuntu''"
      "lower amsterdam_library small_e_acute = small_e_acute"
    by blast+
  from 3 4 keys fixed upper show ?thesis by blast
qed

subsection \<open>C8: the result is a function of what the context returns\<close>

text \<open>
  C8. Let two runs be given by the contexts \<open>ctx1\<close> and \<open>ctx2\<close>. When both give the same
  answer to the directory check, the same listing, and the same contents for every
  recognized file of the listing (they may differ everywhere else), the two calls of
  \<^verbatim>\<open>gather_eol_dates\<close> return the same result: equal tables, or the same exception.
\<close>

theorem same_observations_same_result:
  assumes "is_directory ctx1 directory = is_directory ctx2 directory"
    and "list_entries ctx1 directory = list_entries ctx2 directory"
    and "\<forall>entries. list_entries ctx1 directory = Inr entries \<longrightarrow>
           (\<forall>entry \<in> set entries. recognized lib entry \<longrightarrow>
              read_file ctx1 (join directory entry) = read_file ctx2 (join directory entry))"
  shows "gather_eol_dates ctx1 lib directory = gather_eol_dates ctx2 lib directory"
proof -
  have "gather_entries ctx1 lib directory Map.empty entries =
      gather_entries ctx2 lib directory Map.empty entries"
    if "list_entries ctx1 directory = Inr entries" for entries
    using that assms(3) by (intro gather_entries_same_reads) simp
  then show ?thesis
    unfolding gather_eol_dates_def assms(1) assms(2) [symmetric]
    by (auto split: sum.splits bool.splits)
qed

text \<open>
  Two runs between which the file \<^verbatim>\<open>README\<close>, which is not recognized, has changed.
\<close>

theorem same_observations_same_result_witness:
  "gather_eol_dates
     (dir_context ''/usr/share/distro-info''
        [(''README'', ''first run''),
         (''debian.csv'', csv_text [''series,eol'', ''squeeze,2014-05-31''])])
     amsterdam_library ''/usr/share/distro-info'' =
   gather_eol_dates
     (dir_context ''/usr/share/distro-info''
        [(''README'', ''second run''),
         (''debian.csv'', csv_text [''series,eol'', ''squeeze,2014-05-31''])])
     amsterdam_library ''/usr/share/distro-info'' \<and>
   read_file (dir_context ''/usr/share/distro-info''
        [(''README'', ''first run''),
         (''debian.csv'', csv_text [''series,eol'', ''squeeze,2014-05-31''])])
      ''/usr/share/distro-info/README'' = Inr ''first run'' \<and>
   read_file (dir_context ''/usr/share/distro-info''
        [(''README'', ''second run''),
         (''debian.csv'', csv_text [''series,eol'', ''squeeze,2014-05-31''])])
      ''/usr/share/distro-info/README'' = Inr ''second run''"
proof -
  let ?dir = "''/usr/share/distro-info''"
  let ?c1 = "dir_context ?dir [(''README'', ''first run''),
         (''debian.csv'', csv_text [''series,eol'', ''squeeze,2014-05-31''])]"
  let ?c2 = "dir_context ?dir [(''README'', ''second run''),
         (''debian.csv'', csv_text [''series,eol'', ''squeeze,2014-05-31''])]"
  have 1: "is_directory ?c1 ?dir = is_directory ?c2 ?dir"
    and 2: "list_entries ?c1 ?dir = list_entries ?c2 ?dir"
    by (simp_all add: dir_context_def)
  have 3: "\<forall>entries. list_entries ?c1 ?dir = Inr entries \<longrightarrow>
           (\<forall>entry \<in> set entries. recognized amsterdam_library entry \<longrightarrow>
              read_file ?c1 (join ?dir entry) = read_file ?c2 (join ?dir entry))"
    by (simp add: dir_context_def recognized_examples join_examples)
  have 4: "read_file ?c1 ''/usr/share/distro-info/README'' = Inr ''first run''"
      "read_file ?c2 ''/usr/share/distro-info/README'' = Inr ''second run''"
    by (simp_all add: dir_context_def join_examples)
  from same_observations_same_result [OF 1 2 3] 4
  show ?thesis by blast
qed

subsection \<open>C9: a recognized file creates the entry of its distributor\<close>

text \<open>
  C9, as the claim states it: every recognized file has an entry created for its
  distributor before its records are examined, and in particular a recognized file none
  of whose records has both a series and an end of life that are not empty yields a key
  mapped to the empty mapping. The second part fails when a later entry of the listing
  derives the same distributor: the later file sets the mapping anew (line 135) and
  fills it with its own records. For \<^verbatim>\<open>debian.CSV\<close>, whose only record is that of sid,
  followed by \<^verbatim>\<open>Debian.csv\<close> with the record of squeeze, the result maps \<^verbatim>\<open>debian\<close> to
  the mapping of squeeze.
\<close>

theorem later_file_fills_entry_counterexample:
  "gather_eol_dates
     (dir_context ''/usr/share/distro-info''
        [(''debian.CSV'', csv_text [''series,eol'', ''sid'']),
         (''Debian.csv'', csv_text [''series,eol'', ''squeeze,2014-05-31''])])
     amsterdam_library ''/usr/share/distro-info''
     = Inr [''debian'' \<mapsto> [''squeeze'' \<mapsto> 1401487200]] \<and>
   recognized amsterdam_library ''debian.CSV'' \<and>
   distributor_of amsterdam_library ''debian.CSV'' = ''debian'' \<and>
   records_of
     (dir_context ''/usr/share/distro-info''
        [(''debian.CSV'', csv_text [''series,eol'', ''sid'']),
         (''Debian.csv'', csv_text [''series,eol'', ''squeeze,2014-05-31''])])
     amsterdam_library ''/usr/share/distro-info'' ''debian.CSV''
     = [[''series'' \<mapsto> Some ''sid'', ''eol'' \<mapsto> None]] \<and>
   \<not> truthy (py_or (row_get [''series'' \<mapsto> Some ''sid'', ''eol'' \<mapsto> None] ''eol-server'')
                   (row_get [''series'' \<mapsto> Some ''sid'', ''eol'' \<mapsto> None] ''eol'')) \<and>
   [''squeeze'' \<mapsto> (1401487200::int)] \<noteq> Map.empty"
  by (simp add: run_simps records_of_def)

text \<open>
  C9, amended. Every recognized file of the listing has its distributor as a key of the
  returned table. In particular, when no later entry of the listing derives the same
  distributor and none of the file's records has both a series and an end of life that
  are not empty, the distributor is mapped to the empty mapping: the key is present, not
  absent. The entry is created before any record is examined: whatever the table was,
  the loop over the records of the file starts from the table in which the distributor
  is mapped to the empty mapping.
\<close>

theorem recognized_file_creates_entry:
  assumes "is_directory ctx directory = Inr True"
    and "list_entries ctx directory = Inr (before @ entry # after)"
    and "recognized lib entry"
    and "gather_eol_dates ctx lib directory = Inr known_dates"
  shows "known_dates (distributor_of lib entry) \<noteq> None \<and>
         ((\<forall>e \<in> set after. recognized lib e \<longrightarrow> distributor_of lib e \<noteq> distributor_of lib entry) \<and>
          (\<forall>row \<in> set (records_of ctx lib directory entry).
             \<not> (truthy (row_get row ''series'') \<and>
                truthy (py_or (row_get row ''eol-server'') (row_get row ''eol'')))) \<longrightarrow>
          known_dates (distributor_of lib entry) = Some Map.empty) \<and>
         (\<forall>table. \<exists>contents decoded.
            read_file ctx (join directory entry) = Inr contents \<and>
            decode_ascii contents = Inr decoded \<and>
            process_entry ctx lib directory table entry =
              process_rows lib (distributor_of lib entry)
                (table(distributor_of lib entry \<mapsto> Map.empty))
                (fst (DictReader lib decoded)) (snd (DictReader lib decoded)))"
proof (intro conjI impI allI)
  let ?d = "distributor_of lib entry"
  from assms have g: "gather_entries ctx lib directory Map.empty (before @ entry # after) =
      Inr known_dates"
    by (simp add: gather_eol_dates_listing)
  from gather_entries_dom [OF g] assms(3) have "?d \<in> dom known_dates" by auto
  then show "known_dates ?d \<noteq> None" by auto
  from g obtain k1 k2 where e: "process_entry ctx lib directory k1 entry = Inr k2"
    by (auto simp: gather_entries_append split: sum.splits)
  with assms(3) obtain contents decoded
    where c: "read_file ctx (join directory entry) = Inr contents"
      and d: "decode_ascii contents = Inr decoded"
    by (auto simp: process_entry_recognized split: sum.splits)
  fix table
  from c d assms(3) show "\<exists>contents decoded.
            read_file ctx (join directory entry) = Inr contents \<and>
            decode_ascii contents = Inr decoded \<and>
            process_entry ctx lib directory table entry =
              process_rows lib ?d (table(?d \<mapsto> Map.empty))
                (fst (DictReader lib decoded)) (snd (DictReader lib decoded))"
    by (simp add: process_entry_recognized)
next
  let ?d = "distributor_of lib entry"
  assume a: "(\<forall>e \<in> set after. recognized lib e \<longrightarrow> distributor_of lib e \<noteq> ?d) \<and>
          (\<forall>row \<in> set (records_of ctx lib directory entry).
             \<not> (truthy (row_get row ''series'') \<and>
                truthy (py_or (row_get row ''eol-server'') (row_get row ''eol''))))"
  from assms have g: "gather_entries ctx lib directory Map.empty (before @ entry # after) =
      Inr known_dates"
    by (simp add: gather_eol_dates_listing)
  from last_entry_decides [OF g assms(3)] a obtain alone
    where al: "process_entry ctx lib directory Map.empty entry = Inr alone"
      and eq: "known_dates ?d = alone ?d"
    by blast
  from process_entry_run [OF al assms(3)] a
  have "alone = Map.empty(?d \<mapsto> Map.empty)"
    by (simp add: process_rows_all_skipped)
  with eq show "known_dates ?d = Some Map.empty" by simp
qed

text \<open>
  The file \<^verbatim>\<open>debian.csv\<close> whose only record is that of sid, which has no end of life.
\<close>

theorem recognized_file_creates_entry_witness:
  "gather_eol_dates
     (dir_context ''/usr/share/distro-info'' [(''debian.csv'', csv_text [''series,eol'', ''sid''])])
     amsterdam_library ''/usr/share/distro-info'' = Inr [''debian'' \<mapsto> Map.empty] \<and>
   [''debian'' \<mapsto> (Map.empty :: string \<rightharpoonup> int)] (distributor_of amsterdam_library ''debian.csv'') = Some Map.empty \<and>
   records_of
     (dir_context ''/usr/share/distro-info'' [(''debian.csv'', csv_text [''series,eol'', ''sid''])])
     amsterdam_library ''/usr/share/distro-info'' ''debian.csv'' =
     [[''series'' \<mapsto> Some ''sid'', ''eol'' \<mapsto> None]]"
proof -
  let ?dir = "''/usr/share/distro-info''"
  let ?ctx = "dir_context ?dir [(''debian.csv'', csv_text [''series,eol'', ''sid''])]"
  let ?lib = amsterdam_library
  have 1: "is_directory ?ctx ?dir = Inr True"
    and 2: "list_entries ?ctx ?dir = Inr ([] @ ''debian.csv'' # [])"
    by (simp_all add: dir_context_def)
  have 3: "gather_eol_dates ?ctx ?lib ?dir = Inr [''debian'' \<mapsto> Map.empty]"
    by (simp add: run_simps)
  have 4: "records_of ?ctx ?lib ?dir ''debian.csv'' = [[''series'' \<mapsto> Some ''sid'', ''eol'' \<mapsto> None]]"
    by (simp add: records_of_def dir_context_def join_examples decode_ascii_examples
          amsterdam_DictReader)
  have 5: "(\<forall>e \<in> set []. recognized amsterdam_library e \<longrightarrow> distributor_of amsterdam_library e \<noteq> distributor_of amsterdam_library ''debian.csv'') \<and>
          (\<forall>row \<in> set (records_of ?ctx ?lib ?dir ''debian.csv'').
             \<not> (truthy (row_get row ''series'') \<and>
                truthy (py_or (row_get row ''eol-server'') (row_get row ''eol''))))"
    unfolding 4 by (simp add: row_get_def py_or_def)
  from recognized_file_creates_entry [OF 1 2 recognized_examples(1) 3] 5
  have "[''debian'' \<mapsto> (Map.empty :: string \<rightharpoonup> int)] (distributor_of amsterdam_library ''debian.csv'') =
      Some Map.empty"
    by blast
  with 3 4 show ?thesis by blast
qed

subsection \<open>C10: a later file of the same distributor replaces the earlier one\<close>

text \<open>
  C10. Let \<open>later\<close> be the last recognized entry of the listing for its distributor;
  the entries before it may hold any number of files of the same distributor. The
  mapping the returned table gives for that distributor is the one that
  \<^verbatim>\<open>gather_eol_dates\<close> returns for a listing that holds \<open>later\<close> alone, and every series in
  it is given by a record of \<open>later\<close>: what the earlier files stored is discarded, not
  merged.
\<close>

theorem later_file_replaces_earlier:
  assumes "is_directory ctx directory = Inr True"
    and "list_entries ctx directory = Inr (before @ later # after)"
    and "recognized lib later"
    and "\<forall>e \<in> set after. recognized lib e \<longrightarrow> distributor_of lib e \<noteq> distributor_of lib later"
    and "gather_eol_dates ctx lib directory = Inr known_dates"
  shows "\<exists>releases.
           known_dates (distributor_of lib later) = Some releases \<and>
           gather_eol_dates (ctx\<lparr>list_entries := \<lambda>path. Inr [later]\<rparr>) lib directory =
             Inr [distributor_of lib later \<mapsto> releases] \<and>
           (\<forall>series v. releases series = Some v \<longrightarrow>
              (\<exists>row \<in> set (records_of ctx lib directory later). record_gives lib row series v))"
proof -
  let ?d = "distributor_of lib later"
  let ?ctx' = "ctx\<lparr>list_entries := \<lambda>path. Inr [later]\<rparr>"
  from assms have g: "gather_entries ctx lib directory Map.empty (before @ later # after) =
      Inr known_dates"
    by (simp add: gather_eol_dates_listing)
  from last_entry_decides [OF g assms(3,4)] obtain alone
    where al: "process_entry ctx lib directory Map.empty later = Inr alone"
      and eq: "known_dates ?d = alone ?d"
    by blast
  from process_entry_key [OF al assms(3)] obtain releases where r: "alone ?d = Some releases"
    by auto
  from process_entry_dom [OF al] assms(3) have "dom alone = {?d}" by simp
  with r have alone: "alone = [?d \<mapsto> releases]"
    by (auto simp: fun_eq_iff dom_def)
  have "process_entry ?ctx' lib directory Map.empty later =
      process_entry ctx lib directory Map.empty later"
    by (rule process_entry_same_reads) simp
  with al alone assms(1)
  have "gather_eol_dates ?ctx' lib directory = Inr [?d \<mapsto> releases]"
    by (simp add: gather_eol_dates_def)
  moreover have "\<exists>row \<in> set (records_of ctx lib directory later). record_gives lib row series v"
    if "releases series = Some v" for series v
    using process_entry_provenance [OF al assms(3) r that] .
  ultimately show ?thesis using eq r by auto
qed

text \<open>
  \<^verbatim>\<open>Debian.csv\<close> with the record of squeeze, then \<^verbatim>\<open>debian.CSV\<close> with the record of
  wheezy: the result holds wheezy only. The same for two files whose base names are the
  small and the capital letter E with acute accent, which \<^verbatim>\<open>str.lower\<close> maps to one
  distributor.
\<close>

theorem later_file_replaces_earlier_witness:
  "gather_eol_dates
     (dir_context ''/usr/share/distro-info''
        [(''Debian.csv'', csv_text [''series,eol'', ''squeeze,2014-05-31'']),
         (''debian.CSV'', csv_text [''series,eol'', ''wheezy,2016-04-26''])])
     amsterdam_library ''/usr/share/distro-info''
     = Inr [''debian'' \<mapsto> [''wheezy'' \<mapsto> 1461621600]] \<and>
   gather_eol_dates
     ((dir_context ''/usr/share/distro-info''
        [(''Debian.csv'', csv_text [''series,eol'', ''squeeze,2014-05-31'']),
         (''debian.CSV'', csv_text [''series,eol'', ''wheezy,2016-04-26''])])
      \<lparr>list_entries := \<lambda>path. Inr [''debian.CSV'']\<rparr>)
     amsterdam_library ''/usr/share/distro-info''
     = Inr [''debian'' \<mapsto> [''wheezy'' \<mapsto> 1461621600]] \<and>
   distributor_of amsterdam_library ''Debian.csv'' = distributor_of amsterdam_library ''debian.CSV'' \<and>
   [''wheezy'' \<mapsto> (1461621600::int)] ''squeeze'' = None \<and>
   gather_eol_dates
     (dir_context ''/usr/share/distro-info''
        [(small_e_acute @ ''.csv'', csv_text [''series,eol'', ''squeeze,2014-05-31'']),
         (capital_e_acute @ ''.csv'', csv_text [''series,eol'', ''wheezy,2016-04-26''])])
     amsterdam_library ''/usr/share/distro-info''
     = Inr [small_e_acute \<mapsto> [''wheezy'' \<mapsto> 1461621600]] \<and>
   gather_eol_dates
     ((dir_context ''/usr/share/distro-info''
        [(small_e_acute @ ''.csv'', csv_text [''series,eol'', ''squeeze,2014-05-31'']),
         (capital_e_acute @ ''.csv'', csv_text [''series,eol'', ''wheezy,2016-04-26''])])
      \<lparr>list_entries := \<lambda>path. Inr [capital_e_acute @ ''.csv'']\<rparr>)
     amsterdam_library ''/usr/share/distro-info''
     = Inr [small_e_acute \<mapsto> [''wheezy'' \<mapsto> 1461621600]] \<and>
   distributor_of amsterdam_library (small_e_acute @ ''.csv'') =
     distributor_of amsterdam_library (capital_e_acute @ ''.csv'')"
proof -
  let ?dir = "''/usr/share/distro-info''"
  let ?ctx = "dir_context ?dir
        [(''Debian.csv'', csv_text [''series,eol'', ''squeeze,2014-05-31'']),
         (''debian.CSV'', csv_text [''series,eol'', ''wheezy,2016-04-26''])]"
  let ?ctx2 = "dir_context ?dir
        [(small_e_acute @ ''.csv'', csv_text [''series,eol'', ''squeeze,2014-05-31'']),
         (capital_e_acute @ ''.csv'', csv_text [''series,eol'', ''wheezy,2016-04-26''])]"
  let ?lib = amsterdam_library
  have 1: "is_directory ?ctx ?dir = Inr True"
    and 2: "list_entries ?ctx ?dir = Inr ([''Debian.csv''] @ ''debian.CSV'' # [])"
    by (simp_all add: dir_context_def)
  have 4: "\<forall>e \<in> set []. recognized ?lib e \<longrightarrow> distributor_of ?lib e \<noteq> distributor_of ?lib ''debian.CSV''"
    by simp
  have 5: "gather_eol_dates ?ctx ?lib ?dir = Inr [''debian'' \<mapsto> [''wheezy'' \<mapsto> 1461621600]]"
    by (simp add: run_simps)
  from later_file_replaces_earlier [OF 1 2 recognized_examples(7) 4 5]
  obtain releases where
      "[''debian'' \<mapsto> [''wheezy'' \<mapsto> (1461621600::int)]] (distributor_of ?lib ''debian.CSV'') =
         Some releases"
    and "gather_eol_dates (?ctx\<lparr>list_entries := \<lambda>path. Inr [''debian.CSV'']\<rparr>) ?lib ?dir =
         Inr [distributor_of ?lib ''debian.CSV'' \<mapsto> releases]"
    by blast
  then have a: "gather_eol_dates (?ctx\<lparr>list_entries := \<lambda>path. Inr [''debian.CSV'']\<rparr>) ?lib ?dir =
         Inr [''debian'' \<mapsto> [''wheezy'' \<mapsto> 1461621600]]"
    by (simp add: distributor_of_examples)
  have 6: "is_directory ?ctx2 ?dir = Inr True"
    and 7: "list_entries ?ctx2 ?dir =
      Inr ([small_e_acute @ ''.csv''] @ (capital_e_acute @ ''.csv'') # [])"
    by (simp_all add: dir_context_def)
  have 8: "\<forall>e \<in> set []. recognized ?lib e \<longrightarrow>
      distributor_of ?lib e \<noteq> distributor_of ?lib (capital_e_acute @ ''.csv'')"
    by simp
  have 9: "gather_eol_dates ?ctx2 ?lib ?dir = Inr [small_e_acute \<mapsto> [''wheezy'' \<mapsto> 1461621600]]"
    by (simp add: run_simps)
  from later_file_replaces_earlier [OF 6 7 recognized_examples(9) 8 9]
  obtain releases2 where
      "[small_e_acute \<mapsto> [''wheezy'' \<mapsto> (1461621600::int)]]
         (distributor_of ?lib (capital_e_acute @ ''.csv'')) = Some releases2"
    and "gather_eol_dates (?ctx2\<lparr>list_entries := \<lambda>path. Inr [capital_e_acute @ ''.csv'']\<rparr>)
         ?lib ?dir = Inr [distributor_of ?lib (capital_e_acute @ ''.csv'') \<mapsto> releases2]"
    by blast
  then have b: "gather_eol_dates
      (?ctx2\<lparr>list_entries := \<lambda>path. Inr [capital_e_acute @ ''.csv'']\<rparr>) ?lib ?dir =
      Inr [small_e_acute \<mapsto> [''wheezy'' \<mapsto> 1461621600]]"
    by (simp add: lower_examples)
  from 5 a 9 b show ?thesis by (simp add: distributor_of_examples lower_examples)
qed

end
